theory Spec2Isabelle
  imports Main
begin

section \<open>The law cache server: store, normaliser, fetcher, scheduler\<close>

text \<open>
  The repository holds three variants of one Node.js server. The file whose name is not
  known (\<^verbatim>\<open>src/unnamed/part_000\<close>) is the most developed one; its functions keep
  their names here. \<^verbatim>\<open>src/scraping-backend/server.js\<close> holds two older variants one
  after the other: lines 1-107 (suffix \<open>_A\<close> below) and lines 108-198 (suffix \<open>_B\<close>).

  A JavaScript string is a \<open>string\<close>, a list of characters (the texts the source
  writes out are Latin-1, one \<open>char\<close> each); nothing below looks into a content beyond
  comparing it and asking whether it is empty. A string is truthy iff it is not empty;
  \<open>null\<close> and \<open>undefined\<close> are \<open>None\<close>.
\<close>

subsection \<open>The table \<^verbatim>\<open>laws\<close>\<close>

text \<open>
  \<^verbatim>\<open>CREATE TABLE IF NOT EXISTS laws (id INTEGER PRIMARY KEY AUTOINCREMENT,
     law_type TEXT [UNIQUE], content TEXT, last_updated DATETIME DEFAULT CURRENT_TIMESTAMP)\<close>

  A table is the list of its rows in rowid order together with the AUTOINCREMENT counter
  (\<^verbatim>\<open>sqlite_sequence\<close>). \<^verbatim>\<open>CURRENT_TIMESTAMP\<close> has a resolution of one second and compares
  chronologically; it is the number of seconds \<open>now\<close> read from the clock when the
  statement runs. Each variant is modelled against the table its own
  \<^verbatim>\<open>CREATE TABLE\<close> declares, and a statement is taken to run without an I/O error.
\<close>

record row =
  row_id :: nat
  law_type :: string
  content :: string
  last_updated :: nat

record db =
  rows :: "row list"
  seq :: nat

definition empty_db :: db where
  "empty_db = \<lparr>rows = [], seq = 0\<rparr>"

text \<open>The constraint \<^verbatim>\<open>law_type TEXT UNIQUE\<close> of part_000 and of variant A.\<close>

definition unique_law_type :: "db \<Rightarrow> bool" where
  "unique_law_type d = distinct (map law_type (rows d))"

text \<open>
  \<^verbatim>\<open>INSERT INTO laws (law_type, content, last_updated) VALUES (?, ?, CURRENT_TIMESTAMP)
  ON CONFLICT(law_type) DO UPDATE SET content = excluded.content,
  last_updated = CURRENT_TIMESTAMP\<close>
  (part_000 lines 73-78, variant A lines 48-53). The row that holds the key is updated in
  place; without one a row is appended. The counter advances in both cases.
\<close>

fun upsert_rows :: "row list \<Rightarrow> nat \<Rightarrow> string \<Rightarrow> string \<Rightarrow> nat \<Rightarrow> row list" where
  "upsert_rows [] i lawType c now =
     [\<lparr>row_id = i, law_type = lawType, content = c, last_updated = now\<rparr>]"
| "upsert_rows (r # rs) i lawType c now =
     (if law_type r = lawType then r\<lparr>content := c, last_updated := now\<rparr> # rs
      else r # upsert_rows rs i lawType c now)"

definition upsert :: "db \<Rightarrow> string \<Rightarrow> string \<Rightarrow> nat \<Rightarrow> db" where
  "upsert d lawType c now =
     \<lparr>rows = upsert_rows (rows d) (Suc (seq d)) lawType c now, seq = Suc (seq d)\<rparr>"

text \<open>
  \<^verbatim>\<open>INSERT INTO laws (law_type, content) VALUES (?, ?)\<close> (variant B lines 149-152), on a
  table without the UNIQUE constraint: a row is appended on every call, and
  \<^verbatim>\<open>last_updated\<close> takes its default.
\<close>

definition insert_B :: "db \<Rightarrow> string \<Rightarrow> string \<Rightarrow> nat \<Rightarrow> db" where
  "insert_B d lawType c now =
     \<lparr>rows = rows d @ [\<lparr>row_id = Suc (seq d), law_type = lawType, content = c,
                          last_updated = now\<rparr>],
      seq = Suc (seq d)\<rparr>"

text \<open>
  \<^verbatim>\<open>SELECT content FROM laws WHERE law_type = ? ORDER BY last_updated DESC LIMIT 1\<close>
  with \<^verbatim>\<open>.get(lawType)\<close> (all three variants). SQLite scans the rows in rowid order and
  sorts them with a stable sort, so among rows of equal \<^verbatim>\<open>last_updated\<close> the one inserted
  first comes first.
\<close>

definition order_by_last_updated_desc :: "row list \<Rightarrow> row list" where
  "order_by_last_updated_desc rs = sort_key (\<lambda>r. - int (last_updated r)) rs"

definition select_latest :: "db \<Rightarrow> string \<Rightarrow> string option" where
  "select_latest d lawType =
     (case order_by_last_updated_desc (filter (\<lambda>r. law_type r = lawType) (rows d)) of
        [] \<Rightarrow> None
      | r # _ \<Rightarrow> Some (content r))"

text \<open>The rows a key has, and the invariant of claim C10.\<close>

definition rows_of :: "db \<Rightarrow> string \<Rightarrow> row list" where
  "rows_of d lawType = filter (\<lambda>r. law_type r = lawType) (rows d)"

definition nonempty_contents :: "db \<Rightarrow> bool" where
  "nonempty_contents d = list_all (\<lambda>r. content r \<noteq> []) (rows d)"

subsection \<open>The libraries\<close>

text \<open>
  The tree that \<^verbatim>\<open>cheerio.load\<close> builds: the children of the document root. Tag and
  attribute names are as the parser leaves them (lower case in HTML).
\<close>

datatype node =
    Element string "(string \<times> string) list" "node list"
  | Text string
  | Comment string

record axios_error =
  code :: string
  message :: string

text \<open>
  The library functions the server calls, taken as they are: \<^verbatim>\<open>cheerio.load\<close>,
  \<^verbatim>\<open>$.html()\<close>, \<^verbatim>\<open>he.decode\<close>, \<^verbatim>\<open>iconv.decode(data, 'windows-1252')\<close>,
  \<^verbatim>\<open>data.toString('latin1')\<close>, the text axios hands over when no \<^verbatim>\<open>responseType\<close> is
  given, and \<^verbatim>\<open>axiosRetry.isNetworkOrIdempotentRequestError\<close>. None of them is taken to
  throw.
\<close>

record libs =
  cheerio_load :: "string \<Rightarrow> node list"
  cheerio_html :: "node list \<Rightarrow> string"
  he_decode :: "string \<Rightarrow> string"
  iconv_decode_1252 :: "string \<Rightarrow> string"
  toString_latin1 :: "string \<Rightarrow> string"
  axios_text :: "string \<Rightarrow> string"
  isNetworkOrIdempotentRequestError :: "axios_error \<Rightarrow> bool"

subsection \<open>The route \<^verbatim>\<open>GET /laws/:lawType\<close>\<close>

datatype body = Send string | Json "(string \<times> string) list"

record response =
  status :: nat
  payload :: body

text \<open>
  The message \<^verbatim>\<open>'Lei n\<close>\<open>\<dots>\<close>\<^verbatim>\<open>o encontrada'\<close>; its sixth character is a with tilde,
  U+00E3.
\<close>

definition lei_nao_encontrada :: string where
  "lei_nao_encontrada = ''Lei n'' @ [CHR 0xE3] @ ''o encontrada''"

text \<open>
  part_000 lines 86-100 and variant A lines 60-75 (the same text):
  \<^verbatim>\<open>if (row) res.send(row.content) else res.status(404).json({ error: ... })\<close>.
\<close>

definition get_laws :: "db \<Rightarrow> string \<Rightarrow> response" where
  "get_laws d lawType =
     (case select_latest d lawType of
        Some c \<Rightarrow> \<lparr>status = 200, payload = Send c\<rparr>
      | None \<Rightarrow> \<lparr>status = 404, payload = Json [(''error'', lei_nao_encontrada)]\<rparr>)"

text \<open>Variant B lines 157-171: \<^verbatim>\<open>res.send(he.decode(row.content))\<close>.\<close>

definition get_laws_B :: "libs \<Rightarrow> db \<Rightarrow> string \<Rightarrow> response" where
  "get_laws_B L d lawType =
     (case select_latest d lawType of
        Some c \<Rightarrow> \<lparr>status = 200, payload = Send (he_decode L c)\<rparr>
      | None \<Rightarrow> \<lparr>status = 404, payload = Json [(''error'', lei_nao_encontrada)]\<rparr>)"

subsection \<open>\<^verbatim>\<open>parseHTML\<close>\<close>

text \<open>\<^verbatim>\<open>$(sel).remove()\<close> for a selector that is a list of tag names.\<close>

fun remove_sel :: "string list \<Rightarrow> node list \<Rightarrow> node list" where
  "remove_sel sel [] = []"
| "remove_sel sel (Element t as cs # ns) =
     (if t \<in> set sel then remove_sel sel ns
      else Element t as (remove_sel sel cs) # remove_sel sel ns)"
| "remove_sel sel (n # ns) = n # remove_sel sel ns"

text \<open>\<^verbatim>\<open>$(tag).removeAttr(name)\<close>.\<close>

definition drop_attr :: "string \<Rightarrow> (string \<times> string) list \<Rightarrow> (string \<times> string) list" where
  "drop_attr name as = filter (\<lambda>kv. fst kv \<noteq> name) as"

fun removeAttr :: "string \<Rightarrow> string \<Rightarrow> node list \<Rightarrow> node list" where
  "removeAttr tag name [] = []"
| "removeAttr tag name (Element t as cs # ns) =
     Element t (if t = tag then drop_attr name as else as) (removeAttr tag name cs)
       # removeAttr tag name ns"
| "removeAttr tag name (n # ns) = n # removeAttr tag name ns"

text \<open>
  part_000 lines 60-65: \<^verbatim>\<open>$('img, script, style, link').remove()\<close>,
  \<^verbatim>\<open>$('a').removeAttr('href')\<close>, then \<^verbatim>\<open>return he.decode($.html())\<close>.
\<close>

definition clean :: "node list \<Rightarrow> node list" where
  "clean doc = removeAttr ''a'' ''href'' (remove_sel [''img'', ''script'', ''style'', ''link''] doc)"

definition parseHTML :: "libs \<Rightarrow> string \<Rightarrow> string" where
  "parseHTML L html = he_decode L (cheerio_html L (clean (cheerio_load L html)))"

text \<open>Variant A lines 35-42: \<^verbatim>\<open>$('img, script, style').remove()\<close>.\<close>

definition clean_A :: "node list \<Rightarrow> node list" where
  "clean_A doc = removeAttr ''a'' ''href'' (remove_sel [''img'', ''script'', ''style''] doc)"

definition parseHTML_A :: "libs \<Rightarrow> string \<Rightarrow> string" where
  "parseHTML_A L html = he_decode L (cheerio_html L (clean_A (cheerio_load L html)))"

text \<open>Variant B lines 139-144: \<^verbatim>\<open>$('img').remove()\<close> and \<^verbatim>\<open>return $.html()\<close>.\<close>

definition clean_B :: "node list \<Rightarrow> node list" where
  "clean_B doc = removeAttr ''a'' ''href'' (remove_sel [''img''] doc)"

definition parseHTML_B :: "libs \<Rightarrow> string \<Rightarrow> string" where
  "parseHTML_B L html = cheerio_html L (clean_B (cheerio_load L html))"




subsection \<open>The process state, the network and \<^verbatim>\<open>axios\<close>\<close>

text \<open>
  The lines the server prints, one constructor for each template, with the values it
  interpolates. In part_000: the first and the last line of \<^verbatim>\<open>scheduleLawUpdates\<close>
  (\<open>Iniciando\<close>, \<open>Concluida\<close>) and its pause (\<open>Pausa\<close>), the line of \<^verbatim>\<open>retryDelay\<close>
  (\<open>Retry\<close>: number of the retry, seconds to wait), the error of \<^verbatim>\<open>fetchAndParseData\<close>
  (\<open>ErroFinal\<close>: URL, message) and the three lines of \<^verbatim>\<open>updateLaw\<close> (\<open>Buscando\<close>,
  \<open>Atualizada\<close>, \<open>Falha\<close>: law type). In \<^verbatim>\<open>server.js\<close>: the errors of the two
  \<^verbatim>\<open>fetchAndParseData\<close> (\<open>ErroBuscar\<close>, \<open>ErroDecodificar\<close>) and the line after a write
  (\<open>Atualizada_plain\<close>).
\<close>

datatype line =
    Iniciando
  | Buscando string
  | Retry nat nat
  | ErroFinal string string
  | Atualizada string
  | Falha string
  | Pausa
  | Concluida
  | ErroBuscar string string
  | ErroDecodificar string
  | Atualizada_plain string

text \<open>
  The state a call works on: the table, the clock in milliseconds, the console, and the
  requests sent so far (URL and time of sending).
\<close>

record st =
  db :: db
  clock :: nat
  log :: "line list"
  sent :: "(string \<times> nat) list"

definition console :: "line \<Rightarrow> st \<Rightarrow> st" where
  "console l s = s\<lparr>log := log s @ [l]\<rparr>"

text \<open>\<^verbatim>\<open>const delay = ms => new Promise(resolve => setTimeout(resolve, ms))\<close>, awaited.\<close>

definition delay :: "nat \<Rightarrow> st \<Rightarrow> st" where
  "delay ms s = s\<lparr>clock := clock s + ms\<rparr>"

definition CURRENT_TIMESTAMP :: "st \<Rightarrow> nat" where
  "CURRENT_TIMESTAMP s = clock s div 1000"

text \<open>
  The network: what one request to a URL, sent at a given time under the options the
  variant passes, settles with, and after how many milliseconds.
\<close>

datatype outcome = Resolved string | Rejected axios_error

record attempt =
  latency :: nat
  outcome :: outcome

type_synonym network = "string \<Rightarrow> nat \<Rightarrow> attempt"

text \<open>One request, as \<^verbatim>\<open>axios.get\<close> makes it in the variants A and B.\<close>

definition request :: "network \<Rightarrow> string \<Rightarrow> st \<Rightarrow> outcome \<times> st" where
  "request net url s =
     (let a = net url (clock s)
      in (outcome a, delay (latency a) (s\<lparr>sent := sent s @ [(url, clock s)]\<rparr>)))"

text \<open>
  part_000 lines 13-23: the options given to \<^verbatim>\<open>axiosRetry\<close>, and \<^verbatim>\<open>axios.get\<close> with
  that interceptor installed. A failed request is sent again while fewer than \<open>retries\<close>
  retries were made and \<open>retryCondition\<close> holds of the error, after the time
  \<open>retryDelay\<close> returns for the number of the retry; \<open>retryCount\<close> is the number of
  retries made so far.
\<close>

definition retries :: nat where
  "retries = 3"

definition retryDelay :: "nat \<Rightarrow> st \<Rightarrow> nat \<times> st" where
  "retryDelay retryCount s =
     (retryCount * 2000, console (Retry retryCount (retryCount * 2)) s)"

definition retryCondition :: "libs \<Rightarrow> axios_error \<Rightarrow> bool" where
  "retryCondition L error \<longleftrightarrow>
     isNetworkOrIdempotentRequestError L error \<or> code error = ''ECONNRESET''"

function axios_get :: "libs \<Rightarrow> network \<Rightarrow> string \<Rightarrow> nat \<Rightarrow> st \<Rightarrow> outcome \<times> st" where
  "axios_get L net url retryCount s =
     (case request net url s of
        (Resolved data, s1) \<Rightarrow> (Resolved data, s1)
      | (Rejected error, s1) \<Rightarrow>
          if retryCount < retries \<and> retryCondition L error
          then (case retryDelay (Suc retryCount) s1 of
                  (ms, s2) \<Rightarrow> axios_get L net url (Suc retryCount) (delay ms s2))
          else (Rejected error, s1))"
  by pat_completeness auto
termination
  by (relation "measure (\<lambda>(L, net, url, retryCount, s). retries - retryCount)") auto

subsection \<open>\<^verbatim>\<open>fetchAndParseData\<close> and \<^verbatim>\<open>updateLaw\<close>\<close>

text \<open>part_000 lines 38-57.\<close>

definition fetchAndParseData :: "libs \<Rightarrow> network \<Rightarrow> string \<Rightarrow> st \<Rightarrow> string option \<times> st" where
  "fetchAndParseData L net url s =
     (case axios_get L net url 0 s of
        (Resolved data, s1) \<Rightarrow> (Some (parseHTML L (iconv_decode_1252 L data)), s1)
      | (Rejected error, s1) \<Rightarrow> (None, console (ErroFinal url (message error)) s1))"

text \<open>
  part_000 lines 68-83. \<open>store_content\<close> is what follows the \<^verbatim>\<open>await\<close>: the write under
  \<^verbatim>\<open>if (content)\<close>, and the line printed otherwise.
\<close>

definition store_content :: "string \<Rightarrow> string option \<Rightarrow> st \<Rightarrow> st" where
  "store_content lawType result s =
     (case result of
        Some c \<Rightarrow>
          if c \<noteq> []
          then console (Atualizada lawType)
                 (s\<lparr>db := upsert (db s) lawType c (CURRENT_TIMESTAMP s)\<rparr>)
          else console (Falha lawType) s
      | None \<Rightarrow> console (Falha lawType) s)"

definition updateLaw :: "libs \<Rightarrow> network \<Rightarrow> string \<Rightarrow> string \<Rightarrow> st \<Rightarrow> st" where
  "updateLaw L net lawType url s =
     (case fetchAndParseData L net url (console (Buscando lawType) s) of
        (result, s1) \<Rightarrow> store_content lawType result s1)"

text \<open>Variant A lines 23-32 and 45-57: one request, no line when nothing is stored.\<close>

definition fetchAndParseData_A :: "libs \<Rightarrow> network \<Rightarrow> string \<Rightarrow> st \<Rightarrow> string option \<times> st" where
  "fetchAndParseData_A L net url s =
     (case request net url s of
        (Resolved data, s1) \<Rightarrow> (Some (parseHTML_A L (axios_text L data)), s1)
      | (Rejected error, s1) \<Rightarrow> (None, console (ErroBuscar url (message error)) s1))"

definition store_content_A :: "string \<Rightarrow> string option \<Rightarrow> st \<Rightarrow> st" where
  "store_content_A lawType result s =
     (case result of
        Some c \<Rightarrow>
          if c \<noteq> []
          then console (Atualizada_plain lawType)
                 (s\<lparr>db := upsert (db s) lawType c (CURRENT_TIMESTAMP s)\<rparr>)
          else s
      | None \<Rightarrow> s)"

definition updateLaw_A :: "libs \<Rightarrow> network \<Rightarrow> string \<Rightarrow> string \<Rightarrow> st \<Rightarrow> st" where
  "updateLaw_A L net lawType url s =
     (case fetchAndParseData_A L net url s of
        (result, s1) \<Rightarrow> store_content_A lawType result s1)"

text \<open>Variant B lines 129-137 and 146-155: one request, a plain \<^verbatim>\<open>INSERT\<close>.\<close>

definition fetchAndParseData_B :: "libs \<Rightarrow> network \<Rightarrow> string \<Rightarrow> st \<Rightarrow> string option \<times> st" where
  "fetchAndParseData_B L net url s =
     (case request net url s of
        (Resolved data, s1) \<Rightarrow> (Some (parseHTML_B L (toString_latin1 L data)), s1)
      | (Rejected error, s1) \<Rightarrow> (None, console (ErroDecodificar (message error)) s1))"

definition store_content_B :: "string \<Rightarrow> string option \<Rightarrow> st \<Rightarrow> st" where
  "store_content_B lawType result s =
     (case result of
        Some c \<Rightarrow>
          if c \<noteq> []
          then console (Atualizada_plain lawType)
                 (s\<lparr>db := insert_B (db s) lawType c (CURRENT_TIMESTAMP s)\<rparr>)
          else s
      | None \<Rightarrow> s)"

definition updateLaw_B :: "libs \<Rightarrow> network \<Rightarrow> string \<Rightarrow> string \<Rightarrow> st \<Rightarrow> st" where
  "updateLaw_B L net lawType url s =
     (case fetchAndParseData_B L net url s of
        (result, s1) \<Rightarrow> store_content_B lawType result s1)"

subsection \<open>The catalog and \<^verbatim>\<open>scheduleLawUpdates\<close>\<close>

record law =
  type :: string
  url :: string

definition lawsToUpdate :: "law list" where
  "lawsToUpdate =
    [\<lparr>type = ''codigo-civil'',
      url = ''https://www.planalto.gov.br/ccivil_03/Leis/2002/L10406compilada.htm''\<rparr>,
     \<lparr>type = ''processo-civil'',
      url = ''https://www.planalto.gov.br/ccivil_03/decreto-lei/1937-1946/del1608.htm''\<rparr>,
     \<lparr>type = ''eleitoral'',
      url = ''https://www.planalto.gov.br/ccivil_03/Leis/L4737compilado.htm''\<rparr>,
     \<lparr>type = ''codigo-comercial'',
      url = ''https://www.planalto.gov.br/ccivil_03/leis/lim/LIM556compilado.htm''\<rparr>,
     \<lparr>type = ''codigo-penal'',
      url = ''https://www.planalto.gov.br/ccivil_03/decreto-lei/del2848compilado.htm''\<rparr>,
     \<lparr>type = ''constituicao-federal'',
      url = ''https://www.planalto.gov.br/ccivil_03/constituicao/ConstituicaoCompilado.htm''\<rparr>,
     \<lparr>type = ''codigo-tributario'',
      url = ''https://www.planalto.gov.br/ccivil_03/leis/L5172Compilado.htm''\<rparr>,
     \<lparr>type = ''leis-trabalho'',
      url = ''https://www.planalto.gov.br/ccivil_03/decreto-lei/Del5452compilado.htm''\<rparr>,
     \<lparr>type = ''defesa-consumidor'',
      url = ''https://www.planalto.gov.br/ccivil_03/leis/l8078compilado.htm''\<rparr>,
     \<lparr>type = ''advocacia'',
      url = ''https://www.planalto.gov.br/ccivil_03/leis/l8906.htm''\<rparr>,
     \<lparr>type = ''estatuto-deficiencia'',
      url = ''https://www.planalto.gov.br/ccivil_03/_ato2015-2018/2015/lei/l13146.htm''\<rparr>]"

text \<open>
  part_000 lines 118-127, run from its call to the end with nothing else scheduled in
  between: the loop \<^verbatim>\<open>for (const law of lawsToUpdate)\<close>, then the whole function. The
  catalog is an argument; the server passes \<open>lawsToUpdate\<close>.
\<close>

fun for_each_law :: "libs \<Rightarrow> network \<Rightarrow> law list \<Rightarrow> st \<Rightarrow> st" where
  "for_each_law L net [] s = s"
| "for_each_law L net (law # laws) s =
     for_each_law L net laws
       (delay 2000 (console Pausa (updateLaw L net (type law) (url law) s)))"

definition scheduleLawUpdates :: "libs \<Rightarrow> network \<Rightarrow> law list \<Rightarrow> st \<Rightarrow> st" where
  "scheduleLawUpdates L net catalog s =
     console Concluida (for_each_law L net catalog (console Iniciando s))"

subsection \<open>The event loop: calls of \<^verbatim>\<open>scheduleLawUpdates\<close> that overlap\<close>

text \<open>
  part_000 lines 130-131 call \<^verbatim>\<open>scheduleLawUpdates()\<close> once and hand it to
  \<^verbatim>\<open>setInterval\<close>. A call runs until its next \<^verbatim>\<open>await\<close> and goes on when the awaited
  promise settles; other callbacks run in between. A call in progress is a \<open>task\<close>: the
  catalog entries it has not finished (the first is the one it works on) and what it
  waits for. An event is a call of the function (\<open>Trigger\<close>: the call of line 130 or a
  tick of the timer), a promise settling for a task (with the result of
  \<^verbatim>\<open>fetchAndParseData\<close>, whose own steps are not shown here), or time passing. An event
  for a task that does not exist or waits for something else changes nothing.

  \<open>trigger\<close> is lines 119-121 up to the first \<^verbatim>\<open>await\<close>: the first line of the function
  and, for the first entry, the first line of \<^verbatim>\<open>updateLaw\<close>. \<open>fetch_settled\<close> is the rest
  of \<^verbatim>\<open>updateLaw\<close> (lines 72-82) and lines 123-124. \<open>delay_elapsed\<close> is the next turn
  of the loop, or line 126 when no entry is left.
\<close>

datatype phase = AwaitFetch | AwaitDelay

record task =
  todo :: "law list"
  phase :: phase

record config =
  state :: st
  tasks :: "task list"

datatype event =
    Trigger
  | FetchSettled nat "string option"
  | DelayElapsed nat
  | Elapse nat

definition trigger :: "law list \<Rightarrow> config \<Rightarrow> config" where
  "trigger catalog c =
     (case catalog of
        [] \<Rightarrow> c\<lparr>state := console Concluida (console Iniciando (state c))\<rparr>
      | law # laws \<Rightarrow>
          c\<lparr>state := console (Buscando (type law)) (console Iniciando (state c)),
            tasks := tasks c @ [\<lparr>todo = catalog, phase = AwaitFetch\<rparr>]\<rparr>)"

definition fetch_settled :: "nat \<Rightarrow> string option \<Rightarrow> config \<Rightarrow> config" where
  "fetch_settled i result c =
     (if i < length (tasks c) \<and> phase (tasks c ! i) = AwaitFetch
      then (case todo (tasks c ! i) of
              [] \<Rightarrow> c
            | law # laws \<Rightarrow>
                c\<lparr>state := console Pausa (store_content (type law) result (state c)),
                  tasks := (tasks c)[i := \<lparr>todo = law # laws, phase = AwaitDelay\<rparr>]\<rparr>)
      else c)"

definition delay_elapsed :: "nat \<Rightarrow> config \<Rightarrow> config" where
  "delay_elapsed i c =
     (if i < length (tasks c) \<and> phase (tasks c ! i) = AwaitDelay
      then (case tl (todo (tasks c ! i)) of
              [] \<Rightarrow>
                c\<lparr>state := console Concluida (state c),
                  tasks := take i (tasks c) @ drop (Suc i) (tasks c)\<rparr>
            | law # laws \<Rightarrow>
                c\<lparr>state := console (Buscando (type law)) (state c),
                  tasks := (tasks c)[i := \<lparr>todo = law # laws, phase = AwaitFetch\<rparr>]\<rparr>)
      else c)"

fun fire :: "law list \<Rightarrow> config \<Rightarrow> event \<Rightarrow> config" where
  "fire catalog c Trigger = trigger catalog c"
| "fire catalog c (FetchSettled i result) = fetch_settled i result c"
| "fire catalog c (DelayElapsed i) = delay_elapsed i c"
| "fire catalog c (Elapse ms) = c\<lparr>state := delay ms (state c)\<rparr>"

definition run :: "law list \<Rightarrow> config \<Rightarrow> event list \<Rightarrow> config" where
  "run catalog c es = foldl (fire catalog) c es"

text \<open>
  Variant B lines 187-194: \<^verbatim>\<open>lawsToUpdate.forEach(law => { updateLaw(law.type, law.url) })\<close>
  starts every \<^verbatim>\<open>updateLaw\<close> without awaiting it; what is in progress is the list of
  entries whose fetch has not settled.
\<close>

record config_B =
  state_B :: st
  pending_B :: "law list"

definition trigger_B :: "law list \<Rightarrow> config_B \<Rightarrow> config_B" where
  "trigger_B catalog c = c\<lparr>pending_B := pending_B c @ catalog\<rparr>"

definition fetch_settled_B :: "nat \<Rightarrow> string option \<Rightarrow> config_B \<Rightarrow> config_B" where
  "fetch_settled_B i result c =
     (if i < length (pending_B c)
      then c\<lparr>state_B := store_content_B (type (pending_B c ! i)) result (state_B c),
             pending_B := take i (pending_B c) @ drop (Suc i) (pending_B c)\<rparr>
      else c)"

subsection \<open>What the claims observe\<close>

text \<open>A value is truthy under \<^verbatim>\<open>if (content)\<close> when it is a string that is not empty.\<close>

definition truthy :: "string option \<Rightarrow> bool" where
  "truthy result = (case result of Some c \<Rightarrow> c \<noteq> [] | None \<Rightarrow> False)"

text \<open>The lines of part_000 that report a write, and those that report a skipped entry.\<close>

fun is_updated :: "line \<Rightarrow> bool" where
  "is_updated (Atualizada lawType) = True"
| "is_updated l = False"

fun is_failed :: "line \<Rightarrow> bool" where
  "is_failed (Falha lawType) = True"
| "is_failed l = False"

text \<open>
  The catalog entries a task has still to fetch, and their number over all tasks. The
  counter \<open>seq\<close> of the table advances by one with every write, so the difference of
  its values counts the writes between two states.
\<close>

definition remaining :: "task \<Rightarrow> nat" where
  "remaining t =
     (case phase t of AwaitFetch \<Rightarrow> length (todo t) | AwaitDelay \<Rightarrow> length (todo t) - 1)"

definition pending :: "config \<Rightarrow> nat" where
  "pending c = sum_list (map remaining (tasks c))"

definition triggers :: "event list \<Rightarrow> nat" where
  "triggers es = length (filter (\<lambda>e. e = Trigger) es)"

fun settles_truthy :: "event \<Rightarrow> bool" where
  "settles_truthy (FetchSettled i result) = truthy result"
| "settles_truthy e = True"

subsection \<open>A concrete setting for examples\<close>

text \<open>
  One page and the tree the parser builds for it (it supplies \<^verbatim>\<open>html\<close>, \<^verbatim>\<open>head\<close> and
  \<^verbatim>\<open>body\<close>), a serialiser and a decoder that do for such trees and for the two entities
  of claim C5 what \<^verbatim>\<open>$.html()\<close> and \<^verbatim>\<open>he.decode\<close> do, and a network on which one URL
  of the catalog always resets the connection. The theorems hold for every choice of the
  libraries and of the network; these instances serve the examples only.
\<close>

definition example_page :: string where
  "example_page =
     ''<img src=\"x\"><script>f()</script><a href=\"http://x\">Fa&ccedil;a &amp; aconte&ccedil;a</a>''"

definition example_tree :: "node list" where
  "example_tree =
     [Element ''html'' []
        [Element ''head'' [] [],
         Element ''body'' []
           [Element ''img'' [(''src'', ''x'')] [],
            Element ''script'' [] [Text ''f()''],
            Element ''a'' [(''href'', ''http://x'')]
              [Text (''Fa'' @ [CHR 0xE7] @ ''a & aconte'' @ [CHR 0xE7] @ ''a'')]]]]"

definition example_load :: "string \<Rightarrow> node list" where
  "example_load html =
     (if html = example_page then example_tree
      else [Element ''html'' [] [Element ''head'' [] [], Element ''body'' [] []]])"

definition escape_text :: "string \<Rightarrow> string" where
  "escape_text s =
     concat (map (\<lambda>c. if c = CHR ''&'' then ''&amp;''
                       else if c = CHR ''<'' then ''&lt;''
                       else if c = CHR ''>'' then ''&gt;'' else [c]) s)"

fun example_html :: "node list \<Rightarrow> string" where
  "example_html [] = []"
| "example_html (Element t as cs # ns) =
     ''<'' @ t @ concat (map (\<lambda>kv. '' '' @ fst kv @ ''=\"'' @ snd kv @ ''\"'') as) @ ''>''
       @ example_html cs @ ''</'' @ t @ ''>'' @ example_html ns"
| "example_html (Text s # ns) = escape_text s @ example_html ns"
| "example_html (Comment s # ns) = ''<!--'' @ s @ ''-->'' @ example_html ns"

function example_decode :: "string \<Rightarrow> string" where
  "example_decode [] = []"
| "example_decode (c # cs) =
     (if c = CHR ''&'' \<and> take 4 cs = ''amp;'' then CHR ''&'' # example_decode (drop 4 cs)
      else if c = CHR ''&'' \<and> take 7 cs = ''ccedil;'' then CHR 0xE7 # example_decode (drop 7 cs)
      else c # example_decode cs)"
  by pat_completeness auto
termination
  by (relation "measure length") auto

definition example_libs :: libs where
  "example_libs =
     \<lparr>cheerio_load = example_load, cheerio_html = example_html, he_decode = example_decode,
      iconv_decode_1252 = (\<lambda>data. data), toString_latin1 = (\<lambda>data. data),
      axios_text = (\<lambda>data. data), isNetworkOrIdempotentRequestError = (\<lambda>error. False)\<rparr>"

definition url_codigo_penal :: string where
  "url_codigo_penal = ''https://www.planalto.gov.br/ccivil_03/decreto-lei/del2848compilado.htm''"

definition example_net :: network where
  "example_net u t =
     (if u = url_codigo_penal
      then \<lparr>latency = 300,
            outcome = Rejected \<lparr>code = ''ECONNRESET'', message = ''socket hang up''\<rparr>\<rparr>
      else \<lparr>latency = 300, outcome = Resolved example_page\<rparr>)"

definition s0 :: st where
  "s0 = \<lparr>db = empty_db, clock = 0, log = [], sent = []\<rparr>"

text \<open>What a fetch returns on that network: nothing for that URL, the cleaned page otherwise.\<close>

definition example_fetched :: "law \<Rightarrow> string option" where
  "example_fetched e =
     (if url e = url_codigo_penal then None else Some (parseHTML example_libs example_page))"

text \<open>
  A state a day later, with a row for two of the types, and libraries whose serialiser
  prints nothing, so that a fetched page comes out as the empty string.
\<close>

definition s1 :: st where
  "s1 =
     \<lparr>db = upsert (upsert empty_db ''codigo-penal'' ''texto de ontem'' 7)
             ''advocacia'' ''estatuto de ontem'' 9,
      clock = 86400000, log = [], sent = []\<rparr>"

definition url_advocacia :: string where
  "url_advocacia = ''https://www.planalto.gov.br/ccivil_03/leis/l8906.htm''"

definition blank_libs :: libs where
  "blank_libs = example_libs\<lparr>cheerio_html := (\<lambda>doc. [])\<rparr>"

text \<open>The server before its first call of \<^verbatim>\<open>scheduleLawUpdates\<close>.\<close>

definition idle :: config where
  "idle = \<lparr>state = s0, tasks = []\<rparr>"

definition idle_B :: config_B where
  "idle_B = \<lparr>state_B = s0, pending_B = []\<rparr>"

text \<open>
  Two calls of \<^verbatim>\<open>scheduleLawUpdates\<close> that run side by side over the whole catalog, every
  fetch returning the same text: both are started, then each in turn stores an entry and
  pauses, eleven times.
\<close>

definition both_step :: "event list" where
  "both_step =
     [FetchSettled 0 (Some ''texto''), FetchSettled 1 (Some ''texto''),
      DelayElapsed 0, DelayElapsed 1]"

definition overlapping_run :: "event list" where
  "overlapping_run =
     [Trigger, Trigger] @ concat (replicate 10 both_step) @
     [FetchSettled 0 (Some ''texto''), FetchSettled 1 (Some ''texto''),
      DelayElapsed 0, DelayElapsed 0]"

section \<open>The table and the route\<close>



lemma law_types_upsert_rows:
  "set (map law_type (upsert_rows rs i T c now)) = insert T (set (map law_type rs))"
  by (induction rs) auto

lemma distinct_upsert_rows:
  "distinct (map law_type rs) \<Longrightarrow> distinct (map law_type (upsert_rows rs i T c now))"
proof (induction rs)
  case Nil
  show ?case by simp
next
  case (Cons r rs)
  have "set (map law_type (upsert_rows rs i T c now)) = insert T (set (map law_type rs))"
    by (rule law_types_upsert_rows)
  with Cons show ?case by auto
qed

lemma filter_upsert_rows_same:
  "distinct (map law_type rs) \<Longrightarrow>
   \<exists>r. filter (\<lambda>r. law_type r = T) (upsert_rows rs i T c now) = [r] \<and> law_type r = T \<and>
       content r = c \<and> last_updated r = now"
proof (induction rs)
  case Nil
  show ?case by simp
next
  case (Cons r rs)
  show ?case
  proof (cases "law_type r = T")
    case True
    with Cons.prems have "\<forall>x\<in>set rs. law_type x \<noteq> T" by (auto simp: image_iff)
    then have "filter (\<lambda>r. law_type r = T) rs = []" by (simp add: filter_empty_conv)
    with True show ?thesis by simp
  next
    case False
    with Cons show ?thesis by simp
  qed
qed

lemma filter_upsert_rows_other:
  "T' \<noteq> T \<Longrightarrow>
   filter (\<lambda>r. law_type r = T') (upsert_rows rs i T c now) = filter (\<lambda>r. law_type r = T') rs"
  by (induction rs) auto

lemma select_latest_single:
  "filter (\<lambda>r. law_type r = T) (rows d) = [r] \<Longrightarrow> select_latest d T = Some (content r)"
  by (simp add: select_latest_def order_by_last_updated_desc_def)

lemma select_latest_upsert:
  assumes "unique_law_type d"
  shows "select_latest (upsert d T c now) T = Some c"
proof -
  from assms obtain r where
    "filter (\<lambda>r. law_type r = T) (upsert_rows (rows d) (Suc (seq d)) T c now) = [r]" "content r = c"
    using filter_upsert_rows_same [of "rows d" T "Suc (seq d)" c now]
    by (auto simp: unique_law_type_def)
  then show ?thesis
    using select_latest_single [of T "upsert d T c now" r] by (simp add: upsert_def)
qed

lemma unique_upsert: "unique_law_type d \<Longrightarrow> unique_law_type (upsert d T c now)"
  by (simp add: unique_law_type_def upsert_def distinct_upsert_rows)

lemma select_latest_upsert_other:
  "T' \<noteq> T \<Longrightarrow> select_latest (upsert d T c now) T' = select_latest d T'"
  by (simp add: select_latest_def upsert_def filter_upsert_rows_other)

text \<open>head of the sorted list\<close>

lemma sort_key_hd:
  assumes "xs \<noteq> []"
  shows "\<exists>y ys. sort_key f xs = y # ys \<and> y \<in> set xs \<and> (\<forall>x\<in>set xs. f y \<le> f x)"
proof -
  from assms have "sort_key f xs \<noteq> []" by (metis length_0_conv length_sort)
  then obtain y ys where e: "sort_key f xs = y # ys" by (cases "sort_key f xs") auto
  have "sorted (map f (sort_key f xs))" by (rule sorted_sort_key)
  with e have "\<forall>x\<in>set ys. f y \<le> f x" by simp
  moreover have "set (y # ys) = set xs" using e set_sort [of f xs] by simp
  ultimately show ?thesis using e by auto
qed

lemma select_latest_None:
  "select_latest d T = None \<longleftrightarrow> (\<forall>r\<in>set (rows d). law_type r \<noteq> T)"
proof -
  have "select_latest d T = None \<longleftrightarrow> filter (\<lambda>r. law_type r = T) (rows d) = []"
    by (auto simp: select_latest_def order_by_last_updated_desc_def split: list.splits)
       (metis length_0_conv length_sort)
  then show ?thesis by (simp add: filter_empty_conv)
qed

lemma select_latest_Some:
  assumes "\<exists>r\<in>set (rows d). law_type r = T"
  shows "\<exists>r\<in>set (rows d). law_type r = T \<and> select_latest d T = Some (content r) \<and>
           (\<forall>r'\<in>set (rows d). law_type r' = T \<longrightarrow> last_updated r' \<le> last_updated r)"
proof -
  let ?xs = "filter (\<lambda>r. law_type r = T) (rows d)"
  from assms have "?xs \<noteq> []" by (simp add: filter_empty_conv)
  from sort_key_hd [OF this, of "\<lambda>r. - int (last_updated r)"]
  obtain y ys where e: "sort_key (\<lambda>r. - int (last_updated r)) ?xs = y # ys"
    and m: "y \<in> set ?xs" and le: "\<forall>x\<in>set ?xs. - int (last_updated y) \<le> - int (last_updated x)"
    by blast
  from e have "select_latest d T = Some (content y)"
    by (simp add: select_latest_def order_by_last_updated_desc_def)
  with m le show ?thesis by auto
qed

lemma select_latest_insert_B:
  assumes "\<forall>r\<in>set (rows d). law_type r = T \<longrightarrow> last_updated r < now"
  shows "select_latest (insert_B d T c now) T = Some c"
proof -
  let ?n = "\<lparr>row_id = Suc (seq d), law_type = T, content = c, last_updated = now\<rparr>"
  let ?d = "insert_B d T c now"
  have rows: "rows ?d = rows d @ [?n]" by (simp add: insert_B_def)
  then have "\<exists>r\<in>set (rows ?d). law_type r = T" by simp
  from select_latest_Some [OF this] obtain r where
    r: "r \<in> set (rows ?d)" "law_type r = T" "select_latest ?d T = Some (content r)"
    and mx: "\<forall>r'\<in>set (rows ?d). law_type r' = T \<longrightarrow> last_updated r' \<le> last_updated r"
    by blast
  from mx rows have "now \<le> last_updated r" by auto
  with r(1,2) rows assms have "r = ?n" by auto
  with r(3) show ?thesis by simp
qed


lemma length_upsert_rows_present:
  "T \<in> law_type ` set rs \<Longrightarrow> length (upsert_rows rs i T c now) = length rs"
  by (induction rs) auto

lemma unique_foldl_upsert:
  "unique_law_type d \<Longrightarrow>
   unique_law_type (foldl (\<lambda>d (T, c, now). upsert d T c now) d ws)"
  by (induction ws arbitrary: d) (auto simp: unique_upsert)

lemma rows_of_upsert_same:
  assumes "unique_law_type d"
  shows "\<exists>r. rows_of (upsert d T c now) T = [r] \<and> content r = c \<and> last_updated r = now"
  using filter_upsert_rows_same [of "rows d" T "Suc (seq d)" c now] assms
  by (auto simp: unique_law_type_def rows_of_def upsert_def)

text \<open>
  Claim C1 (freshness). After two writes for the same law type, the second with content
  \<open>c2\<close>, the query returns \<open>c2\<close> and the route answers 200 with it. With the upsert of
  part_000 and of variant A this holds on every table that meets the UNIQUE constraint,
  whatever the timestamps. With the plain \<^verbatim>\<open>INSERT\<close> of variant B it holds when the
  second write carries a \<^verbatim>\<open>last_updated\<close> later than that of every other row of the type
  (the route then sends the decoded \<open>c2\<close>).
\<close>

theorem C1_freshness:
  "(unique_law_type d \<longrightarrow>
      select_latest (upsert (upsert d T c1 t1) T c2 t2) T = Some c2 \<and>
      get_laws (upsert (upsert d T c1 t1) T c2 t2) T = \<lparr>status = 200, payload = Send c2\<rparr>) \<and>
   ((\<forall>r\<in>set (rows_of d T). last_updated r < t2) \<and> t1 < t2 \<longrightarrow>
      select_latest (insert_B (insert_B d T c1 t1) T c2 t2) T = Some c2 \<and>
      get_laws_B L (insert_B (insert_B d T c1 t1) T c2 t2) T =
        \<lparr>status = 200, payload = Send (he_decode L c2)\<rparr>)"
proof (intro conjI impI)
  assume u: "unique_law_type d"
  then have "unique_law_type (upsert d T c1 t1)" by (rule unique_upsert)
  then show l: "select_latest (upsert (upsert d T c1 t1) T c2 t2) T = Some c2"
    by (rule select_latest_upsert)
  then show "get_laws (upsert (upsert d T c1 t1) T c2 t2) T = \<lparr>status = 200, payload = Send c2\<rparr>"
    by (simp add: get_laws_def)
next
  assume a: "(\<forall>r\<in>set (rows_of d T). last_updated r < t2) \<and> t1 < t2"
  then have "\<forall>r\<in>set (rows (insert_B d T c1 t1)). law_type r = T \<longrightarrow> last_updated r < t2"
    by (auto simp: insert_B_def rows_of_def)
  then show l: "select_latest (insert_B (insert_B d T c1 t1) T c2 t2) T = Some c2"
    by (rule select_latest_insert_B)
  then show "get_laws_B L (insert_B (insert_B d T c1 t1) T c2 t2) T =
        \<lparr>status = 200, payload = Send (he_decode L c2)\<rparr>"
    by (simp add: get_laws_B_def)
qed

theorem C1_freshness_witness:
  "unique_law_type empty_db \<and>
   select_latest (upsert (upsert empty_db ''codigo-civil'' ''v1'' 5) ''codigo-civil'' ''v2'' 5)
     ''codigo-civil'' = Some ''v2'' \<and>
   rows_of empty_db ''codigo-civil'' = [] \<and> (5::nat) < 7 \<and>
   select_latest (insert_B (insert_B empty_db ''codigo-civil'' ''v1'' 5) ''codigo-civil'' ''v2'' 7)
     ''codigo-civil'' = Some ''v2''"
  using C1_freshness [where d = empty_db and T = "''codigo-civil''" and ?c1.0 = "''v1''"
      and ?t1.0 = 5 and ?c2.0 = "''v2''" and ?t2.0 = 5]
    C1_freshness [where d = empty_db and T = "''codigo-civil''" and ?c1.0 = "''v1''"
      and ?t1.0 = 5 and ?c2.0 = "''v2''" and ?t2.0 = 7]
  by (simp add: unique_law_type_def empty_db_def rows_of_def)

text \<open>
  As stated, for every pair of writes, the claim fails on variant B: two writes that fall
  into the same second leave two rows of equal \<^verbatim>\<open>last_updated\<close>, and the query returns
  the first of them.
\<close>

theorem C1_freshness_counterexample:
  "select_latest
     (db (store_content_B ''codigo-civil'' (Some ''v2'')
            (delay 900 (store_content_B ''codigo-civil'' (Some ''v1'') s0))))
     ''codigo-civil'' = Some ''v1''"
  by (simp add: s0_def store_content_B_def delay_def console_def CURRENT_TIMESTAMP_def
      insert_B_def empty_db_def select_latest_def order_by_last_updated_desc_def)

text \<open>
  Claim C2 (one row per law type). With the upsert of part_000 and of variant A: the UNIQUE
  constraint is kept by every write, writing the same type and content twice leaves
  exactly one row of that type, with that content, a write for a type that has a row adds
  no row, and every table reached from the empty one by upserts has at most one row per
  type. With the plain \<^verbatim>\<open>INSERT\<close> of variant B every write appends a row to those of its
  type.
\<close>

theorem C2_one_row_per_type:
  "(unique_law_type d \<longrightarrow>
      unique_law_type (upsert d T c now) \<and>
      (\<exists>r. rows_of (upsert (upsert d T c t1) T c t2) T = [r] \<and> content r = c)) \<and>
   (T \<in> law_type ` set (rows d) \<longrightarrow> length (rows (upsert d T c now)) = length (rows d)) \<and>
   unique_law_type (foldl (\<lambda>d (T, c, now). upsert d T c now) empty_db ws) \<and>
   rows_of (insert_B d T c now) T =
     rows_of d T @ [\<lparr>row_id = Suc (seq d), law_type = T, content = c, last_updated = now\<rparr>]"
proof (intro conjI impI)
  assume u: "unique_law_type d"
  then show "unique_law_type (upsert d T c now)" by (rule unique_upsert)
  from u have "unique_law_type (upsert d T c t1)" by (rule unique_upsert)
  from rows_of_upsert_same [OF this, of T c t2]
  show "\<exists>r. rows_of (upsert (upsert d T c t1) T c t2) T = [r] \<and> content r = c" by blast
next
  assume "T \<in> law_type ` set (rows d)"
  then show "length (rows (upsert d T c now)) = length (rows d)"
    by (simp add: upsert_def length_upsert_rows_present)
next
  have "unique_law_type empty_db" by (simp add: unique_law_type_def empty_db_def)
  then show "unique_law_type (foldl (\<lambda>d (T, c, now). upsert d T c now) empty_db ws)"
    by (rule unique_foldl_upsert)
next
  show "rows_of (insert_B d T c now) T =
     rows_of d T @ [\<lparr>row_id = Suc (seq d), law_type = T, content = c, last_updated = now\<rparr>]"
    by (simp add: rows_of_def insert_B_def)
qed

theorem C2_one_row_per_type_witness:
  "unique_law_type empty_db \<and>
   unique_law_type (upsert empty_db ''codigo-civil'' ''v'' 5) \<and>
   map content (rows_of (upsert (upsert empty_db ''codigo-civil'' ''v'' 5) ''codigo-civil'' ''v'' 9)
     ''codigo-civil'') = [''v''] \<and>
   ''codigo-civil'' \<in> law_type ` set (rows (upsert empty_db ''codigo-civil'' ''v'' 5)) \<and>
   length (rows (upsert (upsert empty_db ''codigo-civil'' ''v'' 5) ''codigo-civil'' ''v'' 9)) = 1"
  using C2_one_row_per_type [where d = empty_db and T = "''codigo-civil''" and c = "''v''"
      and now = 5 and ?t1.0 = 5 and ?t2.0 = 9]
    C2_one_row_per_type [where d = "upsert empty_db ''codigo-civil'' ''v'' 5"
      and T = "''codigo-civil''" and c = "''v''" and now = 9]
  by (simp add: unique_law_type_def empty_db_def upsert_def rows_of_def)

text \<open>
  As stated, for every sequence of writes, the claim fails on variant B: two writes of
  the same type and content, a day apart, leave two rows of that type.
\<close>

theorem C2_one_row_per_type_counterexample:
  "map content
     (rows_of (db (store_content_B ''codigo-civil'' (Some ''v'')
                     (delay 86400000 (store_content_B ''codigo-civil'' (Some ''v'') s0))))
        ''codigo-civil'') = [''v'', ''v'']"
  by (simp add: s0_def store_content_B_def delay_def console_def CURRENT_TIMESTAMP_def
      insert_B_def empty_db_def rows_of_def)

text \<open>
  Claim C3 (not found). For a law type without a row the query returns nothing and the
  route answers 404 with the JSON body \<^verbatim>\<open>{"error": "Lei n\<close>\<open>\<dots>\<close>\<^verbatim>\<open>o encontrada"}\<close>. For a
  type with rows it answers 200 with the content of a row of that type whose
  \<^verbatim>\<open>last_updated\<close> is greatest; under the UNIQUE constraint that is the one stored row.
\<close>

theorem C3_not_found:
  "(rows_of d T = [] \<longrightarrow>
      select_latest d T = None \<and>
      get_laws d T =
        \<lparr>status = 404, payload = Json [(''error'', ''Lei n'' @ [CHR 0xE3] @ ''o encontrada'')]\<rparr>) \<and>
   (rows_of d T \<noteq> [] \<longrightarrow>
      (\<exists>r\<in>set (rows_of d T).
         (\<forall>r'\<in>set (rows_of d T). last_updated r' \<le> last_updated r) \<and>
         get_laws d T = \<lparr>status = 200, payload = Send (content r)\<rparr>)) \<and>
   (rows_of d T = [r] \<longrightarrow> get_laws d T = \<lparr>status = 200, payload = Send (content r)\<rparr>)"
proof (intro conjI impI)
  assume e: "rows_of d T = []"
  then have "\<forall>r\<in>set (rows d). law_type r \<noteq> T" by (simp add: rows_of_def filter_empty_conv)
  then show n: "select_latest d T = None" by (simp add: select_latest_None)
  then show "get_laws d T =
        \<lparr>status = 404, payload = Json [(''error'', ''Lei n'' @ [CHR 0xE3] @ ''o encontrada'')]\<rparr>"
    by (simp add: get_laws_def lei_nao_encontrada_def)
next
  assume "rows_of d T \<noteq> []"
  then have "\<exists>r\<in>set (rows d). law_type r = T" by (simp add: rows_of_def filter_empty_conv)
  from select_latest_Some [OF this] obtain r where
    "r \<in> set (rows d)" "law_type r = T" "select_latest d T = Some (content r)"
    "\<forall>r'\<in>set (rows d). law_type r' = T \<longrightarrow> last_updated r' \<le> last_updated r"
    by blast
  then have "r \<in> set (rows_of d T) \<and> (\<forall>r'\<in>set (rows_of d T). last_updated r' \<le> last_updated r) \<and>
         get_laws d T = \<lparr>status = 200, payload = Send (content r)\<rparr>"
    by (simp add: rows_of_def get_laws_def)
  then show "\<exists>r\<in>set (rows_of d T).
         (\<forall>r'\<in>set (rows_of d T). last_updated r' \<le> last_updated r) \<and>
         get_laws d T = \<lparr>status = 200, payload = Send (content r)\<rparr>" by blast
next
  assume "rows_of d T = [r]"
  then have "select_latest d T = Some (content r)"
    using select_latest_single [of T d r] by (simp add: rows_of_def)
  then show "get_laws d T = \<lparr>status = 200, payload = Send (content r)\<rparr>"
    by (simp add: get_laws_def)
qed

theorem C3_not_found_witness:
  "rows_of (upsert empty_db ''codigo-civil'' ''v'' 5) ''advocacia'' = [] \<and>
   get_laws (upsert empty_db ''codigo-civil'' ''v'' 5) ''advocacia'' =
     \<lparr>status = 404, payload = Json [(''error'', ''Lei n'' @ [CHR 0xE3] @ ''o encontrada'')]\<rparr> \<and>
   rows_of (upsert empty_db ''codigo-civil'' ''v'' 5) ''codigo-civil'' =
     [\<lparr>row_id = 1, law_type = ''codigo-civil'', content = ''v'', last_updated = 5\<rparr>] \<and>
   get_laws (upsert empty_db ''codigo-civil'' ''v'' 5) ''codigo-civil'' =
     \<lparr>status = 200, payload = Send ''v''\<rparr>"
  using C3_not_found [of "upsert empty_db ''codigo-civil'' ''v'' 5" "''advocacia''"]
    C3_not_found [of "upsert empty_db ''codigo-civil'' ''v'' 5" "''codigo-civil''"
      "\<lparr>row_id = 1, law_type = ''codigo-civil'', content = ''v'', last_updated = 5\<rparr>"]
  by (simp add: rows_of_def upsert_def empty_db_def)

section \<open>Requests and retries\<close>


declare axios_get.simps [simp del]

lemma request_fields:
  "db (snd (request net u s)) = db s"
  "log (snd (request net u s)) = log s"
  "sent (snd (request net u s)) = sent s @ [(u, clock s)]"
  "clock (snd (request net u s)) = clock s + latency (net u (clock s))"
  "fst (request net u s) = outcome (net u (clock s))"
  by (simp_all add: request_def delay_def Let_def)

lemma axios_get_resolved:
  assumes "outcome (net u (clock s)) = Resolved data"
  shows "axios_get L net u rc s = (Resolved data, snd (request net u s))"
proof -
  obtain s1 where r: "request net u s = (Resolved data, s1)"
    using assms by (simp add: request_def Let_def)
  then have "axios_get L net u rc s = (Resolved data, s1)"
    by (subst axios_get.simps) simp
  with r show ?thesis by simp
qed

lemma axios_get_retry:
  assumes "outcome (net u (clock s)) = Rejected e" "rc < retries" "retryCondition L e"
  shows "axios_get L net u rc s =
           axios_get L net u (Suc rc)
             (delay (Suc rc * 2000) (console (Retry (Suc rc) (Suc rc * 2)) (snd (request net u s))))"
proof -
  obtain s1 where r: "request net u s = (Rejected e, s1)"
    using assms(1) by (simp add: request_def Let_def)
  then have "axios_get L net u rc s =
           axios_get L net u (Suc rc)
             (delay (Suc rc * 2000) (console (Retry (Suc rc) (Suc rc * 2)) s1))"
    using assms(2,3) by (subst axios_get.simps) (simp add: retryDelay_def)
  with r show ?thesis by simp
qed

lemma axios_get_give_up:
  assumes "outcome (net u (clock s)) = Rejected e" "\<not> (rc < retries \<and> retryCondition L e)"
  shows "axios_get L net u rc s = (Rejected e, snd (request net u s))"
proof -
  obtain s1 where r: "request net u s = (Rejected e, s1)"
    using assms(1) by (simp add: request_def Let_def)
  then have "axios_get L net u rc s = (Rejected e, s1)"
    using assms(2) by (subst axios_get.simps) auto
  with r show ?thesis by simp
qed

lemma axios_get_db: "db (snd (axios_get L net u rc s)) = db s"
proof (induction L net u rc s rule: axios_get.induct)
  case (1 L net u rc s)
  show ?case
  proof (cases "outcome (net u (clock s))")
    case (Resolved data)
    then show ?thesis by (simp add: axios_get_resolved request_fields)
  next
    case (Rejected e)
    show ?thesis
    proof (cases "rc < retries \<and> retryCondition L e")
      case True
      have r: "request net u s = (Rejected e, snd (request net u s))"
        using Rejected by (simp add: request_def Let_def)
      have "db (snd (axios_get L net u (Suc rc)
                (delay (Suc rc * 2000) (console (Retry (Suc rc) (Suc rc * 2)) (snd (request net u s))))))
            = db (delay (Suc rc * 2000) (console (Retry (Suc rc) (Suc rc * 2)) (snd (request net u s))))"
        by (rule "1.IH" [OF r [symmetric] refl True]) (simp add: retryDelay_def)
      then show ?thesis using True Rejected
        by (simp add: axios_get_retry delay_def console_def request_fields)
    next
      case False
      then show ?thesis using Rejected by (simp add: axios_get_give_up request_fields)
    qed
  qed
qed


lemma fetchAndParseData_db: "db (snd (fetchAndParseData L net u s)) = db s"
proof -
  have "db (snd (axios_get L net u 0 s)) = db s" by (rule axios_get_db)
  then show ?thesis
    by (auto simp: fetchAndParseData_def console_def split: prod.splits outcome.splits)
qed

lemma fetchAndParseData_A_db: "db (snd (fetchAndParseData_A L net u s)) = db s"
  using request_fields(1) [of net u s]
  by (auto simp: fetchAndParseData_A_def console_def split: prod.splits outcome.splits)

lemma fetchAndParseData_B_db: "db (snd (fetchAndParseData_B L net u s)) = db s"
  using request_fields(1) [of net u s]
  by (auto simp: fetchAndParseData_B_def console_def split: prod.splits outcome.splits)

lemma store_content_falsy:
  "result = None \<or> result = Some [] \<Longrightarrow> db (store_content T result s) = db s"
  "result = None \<or> result = Some [] \<Longrightarrow> db (store_content_A T result s) = db s"
  "result = None \<or> result = Some [] \<Longrightarrow> db (store_content_B T result s) = db s"
  by (auto simp: store_content_def store_content_A_def store_content_B_def console_def)

lemma updateLaw_db_unchanged:
  assumes "fst (fetchAndParseData L net u (console (Buscando T) s)) = None \<or>
           fst (fetchAndParseData L net u (console (Buscando T) s)) = Some []"
  shows "db (updateLaw L net T u s) = db s"
proof -
  obtain r s1 where f: "fetchAndParseData L net u (console (Buscando T) s) = (r, s1)"
    by (cases "fetchAndParseData L net u (console (Buscando T) s)")
  then have "db s1 = db s"
    using fetchAndParseData_db [of L net u "console (Buscando T) s"] by (simp add: console_def)
  moreover have "db (store_content T r s1) = db s1"
    using assms f by (intro store_content_falsy) simp
  ultimately show ?thesis using f by (simp add: updateLaw_def)
qed

lemma updateLaw_A_db_unchanged:
  assumes "fst (fetchAndParseData_A L net u s) = None \<or> fst (fetchAndParseData_A L net u s) = Some []"
  shows "db (updateLaw_A L net T u s) = db s"
proof -
  obtain r s1 where f: "fetchAndParseData_A L net u s = (r, s1)"
    by (cases "fetchAndParseData_A L net u s")
  then have "db s1 = db s"
    using fetchAndParseData_A_db [of L net u s] by simp
  moreover have "db (store_content_A T r s1) = db s1"
    using assms f by (intro store_content_falsy) simp
  ultimately show ?thesis using f by (simp add: updateLaw_A_def)
qed




lemma axios_get_never_resolves:
  "\<forall>t. \<exists>e. outcome (net u t) = Rejected e \<Longrightarrow> \<exists>e. fst (axios_get L net u rc s) = Rejected e"
proof (induction L net u rc s rule: axios_get.induct)
  case (1 L net u rc s)
  from "1.prems" obtain e where e: "outcome (net u (clock s)) = Rejected e" by blast
  show ?case
  proof (cases "rc < retries \<and> retryCondition L e")
    case True
    have r: "request net u s = (Rejected e, snd (request net u s))"
      using e by (simp add: request_def Let_def)
    have "\<exists>e'. fst (axios_get L net u (Suc rc)
             (delay (Suc rc * 2000) (console (Retry (Suc rc) (Suc rc * 2)) (snd (request net u s)))))
           = Rejected e'"
      using "1.prems" by (intro "1.IH" [OF r [symmetric] refl True]) (simp_all add: retryDelay_def)
    then show ?thesis using True e by (simp add: axios_get_retry)
  next
    case False
    then show ?thesis using e by (simp add: axios_get_give_up)
  qed
qed

lemma fetchAndParseData_never_resolves:
  assumes "\<forall>t. \<exists>e. outcome (net u t) = Rejected e"
  shows "fst (fetchAndParseData L net u s) = None"
proof -
  from assms axios_get_never_resolves [where net = net and u = u and L = L and rc = 0 and s = s]
  obtain e where "fst (axios_get L net u 0 s) = Rejected e" by blast
  then show ?thesis
    by (cases "axios_get L net u 0 s") (simp add: fetchAndParseData_def)
qed

lemma fetchAndParseData_resolved:
  assumes "outcome (net u (clock s)) = Resolved data"
  shows "fetchAndParseData L net u s =
           (Some (parseHTML L (iconv_decode_1252 L data)), snd (request net u s))"
  using assms axios_get_resolved [where net = net and u = u and s = s and data = data and L = L and rc = 0]
  by (simp add: fetchAndParseData_def)



lemma example_net_penal:
  "outcome (example_net url_codigo_penal t) =
     Rejected \<lparr>code = ''ECONNRESET'', message = ''socket hang up''\<rparr>"
  "latency (example_net url_codigo_penal t) = 300"
  by (simp_all add: example_net_def)



section \<open>One pass over the catalog\<close>


lemma axios_get_log_filter:
  "(\<And>n m. \<not> P (Retry n m)) \<Longrightarrow>
   filter P (log (snd (axios_get L net u rc s))) = filter P (log s)"
proof (induction L net u rc s rule: axios_get.induct)
  case (1 L net u rc s)
  show ?case
  proof (cases "outcome (net u (clock s))")
    case (Resolved data)
    then show ?thesis by (simp add: axios_get_resolved request_fields)
  next
    case (Rejected e)
    show ?thesis
    proof (cases "rc < retries \<and> retryCondition L e")
      case True
      let ?s = "delay (Suc rc * 2000) (console (Retry (Suc rc) (Suc rc * 2)) (snd (request net u s)))"
      have r: "request net u s = (Rejected e, snd (request net u s))"
        using Rejected by (simp add: request_def Let_def)
      have "filter P (log (snd (axios_get L net u (Suc rc) ?s))) = filter P (log ?s)"
        using "1.prems" by (intro "1.IH" [OF r [symmetric] refl True]) (simp_all add: retryDelay_def)
      moreover have "filter P (log ?s) = filter P (log s)"
        using "1.prems" by (simp add: delay_def console_def request_fields)
      ultimately show ?thesis using True Rejected by (simp add: axios_get_retry)
    next
      case False
      then show ?thesis using Rejected by (simp add: axios_get_give_up request_fields)
    qed
  qed
qed

lemma fetchAndParseData_log_filter:
  assumes "\<And>n m. \<not> P (Retry n m)" "\<And>a b. \<not> P (ErroFinal a b)"
  shows "filter P (log (snd (fetchAndParseData L net u s))) = filter P (log s)"
proof -
  have "filter P (log (snd (axios_get L net u 0 s))) = filter P (log s)"
    using assms(1) by (rule axios_get_log_filter)
  then show ?thesis using assms(2)
    by (auto simp: fetchAndParseData_def console_def split: prod.splits outcome.splits)
qed

text \<open>What one call of updateLaw does, in terms of what its fetch returns.\<close>

lemma updateLaw_effect:
  fixes L net T u s
  defines "f \<equiv> fetchAndParseData L net u (console (Buscando T) s)"
  shows "db (updateLaw L net T u s) =
           (if truthy (fst f) then upsert (db s) T (the (fst f)) (CURRENT_TIMESTAMP (snd f))
            else db s)"
    and "filter is_updated (log (updateLaw L net T u s)) =
           filter is_updated (log s) @ (if truthy (fst f) then [Atualizada T] else [])"
    and "filter is_failed (log (updateLaw L net T u s)) =
           filter is_failed (log s) @ (if truthy (fst f) then [] else [Falha T])"
proof -
  obtain r s1 where f: "f = (r, s1)" by (cases f)
  have d: "db s1 = db s"
    using fetchAndParseData_db [of L net u "console (Buscando T) s"] f
    by (simp add: f_def console_def)
  have l1: "filter is_updated (log s1) = filter is_updated (log s)"
    using fetchAndParseData_log_filter [of is_updated L net u "console (Buscando T) s"] f
    by (simp add: f_def console_def)
  have l2: "filter is_failed (log s1) = filter is_failed (log s)"
    using fetchAndParseData_log_filter [of is_failed L net u "console (Buscando T) s"] f
    by (simp add: f_def console_def)
  have u: "updateLaw L net T u s = store_content T r s1"
    using f by (simp add: updateLaw_def f_def)
  show "db (updateLaw L net T u s) =
           (if truthy (fst f) then upsert (db s) T (the (fst f)) (CURRENT_TIMESTAMP (snd f))
            else db s)"
    unfolding u f using d
    by (auto simp: store_content_def truthy_def console_def CURRENT_TIMESTAMP_def split: option.splits)
  show "filter is_updated (log (updateLaw L net T u s)) =
           filter is_updated (log s) @ (if truthy (fst f) then [Atualizada T] else [])"
    unfolding u f using l1
    by (auto simp: store_content_def truthy_def console_def split: option.splits)
  show "filter is_failed (log (updateLaw L net T u s)) =
           filter is_failed (log s) @ (if truthy (fst f) then [] else [Falha T])"
    unfolding u f using l2
    by (auto simp: store_content_def truthy_def console_def split: option.splits)
qed

lemma rows_of_upsert_other: "T' \<noteq> T \<Longrightarrow> rows_of (upsert d T c now) T' = rows_of d T'"
  by (simp add: rows_of_def upsert_def filter_upsert_rows_other)

lemma select_latest_rows_of:
  "rows_of d T = rows_of d' T \<Longrightarrow> select_latest d T = select_latest d' T"
  by (simp add: select_latest_def rows_of_def)

lemma step_fields:
  "db (delay ms (console l s)) = db s"
  "log (delay ms (console l s)) = log s @ [l]"
  by (simp_all add: delay_def console_def)

lemma for_each_law_frame:
  assumes "\<forall>e\<in>set laws. type e \<noteq> T \<or> (\<forall>s'. \<not> truthy (fst (fetchAndParseData L net (url e) s')))"
  shows "rows_of (db (for_each_law L net laws s)) T = rows_of (db s) T"
  using assms
proof (induction laws arbitrary: s)
  case Nil
  show ?case by simp
next
  case (Cons e laws)
  let ?s = "delay 2000 (console Pausa (updateLaw L net (type e) (url e) s))"
  have "rows_of (db ?s) T = rows_of (db s) T"
  proof (cases "type e = T")
    case True
    with Cons.prems have "\<not> truthy (fst (fetchAndParseData L net (url e) (console (Buscando (type e)) s)))"
      by simp
    then show ?thesis by (simp add: step_fields updateLaw_effect(1))
  next
    case False
    then show ?thesis by (simp add: step_fields updateLaw_effect(1) rows_of_upsert_other)
  qed
  moreover have "rows_of (db (for_each_law L net laws ?s)) T = rows_of (db ?s) T"
    using Cons.prems by (intro Cons.IH) simp
  ultimately show ?case by simp
qed

lemma for_each_law_unique:
  "unique_law_type (db s) \<Longrightarrow> unique_law_type (db (for_each_law L net laws s))"
proof (induction laws arbitrary: s)
  case Nil
  then show ?case by simp
next
  case (Cons e laws)
  have "unique_law_type (db (delay 2000 (console Pausa (updateLaw L net (type e) (url e) s))))"
    using Cons.prems by (simp add: step_fields updateLaw_effect(1) unique_upsert)
  then show ?case by (simp add: Cons.IH)
qed

lemma for_each_law_counts:
  assumes "\<forall>e\<in>set laws. \<forall>s'. fst (fetchAndParseData L net (url e) s') = fetched e"
  shows "filter is_updated (log (for_each_law L net laws s)) =
           filter is_updated (log s) @
           map (\<lambda>e. Atualizada (type e)) (filter (\<lambda>e. truthy (fetched e)) laws) \<and>
         filter is_failed (log (for_each_law L net laws s)) =
           filter is_failed (log s) @
           map (\<lambda>e. Falha (type e)) (filter (\<lambda>e. \<not> truthy (fetched e)) laws) \<and>
         seq (db (for_each_law L net laws s)) =
           seq (db s) + length (filter (\<lambda>e. truthy (fetched e)) laws)"
  using assms
proof (induction laws arbitrary: s)
  case Nil
  show ?case by simp
next
  case (Cons e laws)
  let ?s = "delay 2000 (console Pausa (updateLaw L net (type e) (url e) s))"
  have f: "fst (fetchAndParseData L net (url e) (console (Buscando (type e)) s)) = fetched e"
    and rest: "\<forall>e\<in>set laws. \<forall>s'. fst (fetchAndParseData L net (url e) s') = fetched e"
    using Cons.prems by simp_all
  have 1: "filter is_updated (log ?s) =
            filter is_updated (log s) @ (if truthy (fetched e) then [Atualizada (type e)] else [])"
    by (simp add: step_fields updateLaw_effect(2) f)
  have 2: "filter is_failed (log ?s) =
            filter is_failed (log s) @ (if truthy (fetched e) then [] else [Falha (type e)])"
    by (simp add: step_fields updateLaw_effect(3) f)
  have 3: "seq (db ?s) = seq (db s) + (if truthy (fetched e) then 1 else 0)"
    by (simp add: step_fields updateLaw_effect(1) f upsert_def)
  from Cons.IH [OF rest, of ?s] 1 2 3 show ?case by simp
qed

lemma for_each_law_latest:
  assumes "\<forall>e\<in>set laws. \<forall>s'. fst (fetchAndParseData L net (url e) s') = fetched e"
    and "unique_law_type (db s)" and "distinct (map type laws)"
    and "e \<in> set laws" and "truthy (fetched e)"
  shows "select_latest (db (for_each_law L net laws s)) (type e) = fetched e"
  using assms
proof (induction laws arbitrary: s)
  case Nil
  then show ?case by simp
next
  case (Cons x laws)
  let ?s = "delay 2000 (console Pausa (updateLaw L net (type x) (url x) s))"
  have fx: "fst (fetchAndParseData L net (url x) (console (Buscando (type x)) s)) = fetched x"
    using Cons.prems(1) by simp
  have u: "unique_law_type (db ?s)"
    using Cons.prems(2) by (simp add: step_fields updateLaw_effect(1) unique_upsert)
  show ?case
  proof (cases "e = x")
    case True
    obtain c where c: "fetched x = Some c"
      using Cons.prems(5) True by (cases "fetched x") (simp_all add: truthy_def)
    have "select_latest (db ?s) (type x) = fetched x"
      using Cons.prems(2,5) True c
      by (simp add: step_fields updateLaw_effect(1) fx select_latest_upsert)
    moreover have "rows_of (db (for_each_law L net laws ?s)) (type x) = rows_of (db ?s) (type x)"
      using Cons.prems(3) by (intro for_each_law_frame) (auto simp: image_iff)
    ultimately show ?thesis using True
      by (simp add: select_latest_rows_of [of "db (for_each_law L net laws ?s)" "type x" "db ?s"])
  next
    case False
    with Cons.prems have "e \<in> set laws" "distinct (map type laws)"
      "\<forall>e\<in>set laws. \<forall>s'. fst (fetchAndParseData L net (url e) s') = fetched e" by simp_all
    from Cons.IH [OF this(3) u this(2) this(1) Cons.prems(5)] show ?thesis by simp
  qed
qed

lemma example_parseHTML:
  "parseHTML example_libs example_page =
     ''<html><head></head><body><a>Fa'' @ [CHR 0xE7] @ ''a & aconte'' @ [CHR 0xE7] @ ''a</a></body></html>''"
  by (simp add: parseHTML_def example_libs_def example_load_def example_tree_def clean_def
      drop_attr_def escape_text_def)

lemma example_fetch:
  "fst (fetchAndParseData example_libs example_net (url e) s) = example_fetched e"
proof (cases "url e = url_codigo_penal")
  case True
  have "\<forall>t. \<exists>x. outcome (example_net url_codigo_penal t) = Rejected x"
    by (simp add: example_net_penal)
  then have "fst (fetchAndParseData example_libs example_net url_codigo_penal s) = None"
    by (rule fetchAndParseData_never_resolves)
  with True show ?thesis by (simp add: example_fetched_def)
next
  case False
  then have "outcome (example_net (url e) (clock s)) = Resolved example_page"
    by (simp add: example_net_def)
  from fetchAndParseData_resolved [where net = example_net and u = "url e" and s = s
      and data = example_page and L = example_libs, OF this] False
  show ?thesis by (simp add: example_fetched_def example_libs_def)
qed

lemma example_truthy:
  "truthy (example_fetched e) \<longleftrightarrow> url e \<noteq> url_codigo_penal"
  by (simp add: example_fetched_def truthy_def example_parseHTML)

text \<open>
  Claim C7 (cycle resilience). Let every entry of the catalog have a fixed fetch result
  \<open>fetched e\<close> during the cycle, \<open>null\<close> or the empty text for the entries that fail.
  Then \<open>scheduleLawUpdates\<close> runs to its last line; it reports a write for exactly the
  entries whose fetch returned a text, in catalog order, and a failure for exactly the
  others; it performs one write for each of the former; and, the types of the catalog
  being distinct, the table afterwards holds for each of them the text fetched.
\<close>

theorem C7_cycle_resilience:
  "(\<forall>e\<in>set catalog. \<forall>s'. fst (fetchAndParseData L net (url e) s') = fetched e) \<longrightarrow>
     last (log (scheduleLawUpdates L net catalog s)) = Concluida \<and>
     filter is_updated (log (scheduleLawUpdates L net catalog s)) =
       filter is_updated (log s) @
       map (\<lambda>e. Atualizada (type e)) (filter (\<lambda>e. truthy (fetched e)) catalog) \<and>
     filter is_failed (log (scheduleLawUpdates L net catalog s)) =
       filter is_failed (log s) @
       map (\<lambda>e. Falha (type e)) (filter (\<lambda>e. \<not> truthy (fetched e)) catalog) \<and>
     seq (db (scheduleLawUpdates L net catalog s)) =
       seq (db s) + length (filter (\<lambda>e. truthy (fetched e)) catalog) \<and>
     (unique_law_type (db s) \<and> distinct (map type catalog) \<longrightarrow>
        (\<forall>e\<in>set catalog. truthy (fetched e) \<longrightarrow>
           select_latest (db (scheduleLawUpdates L net catalog s)) (type e) = fetched e))"
proof (intro impI conjI ballI)
  assume a: "\<forall>e\<in>set catalog. \<forall>s'. fst (fetchAndParseData L net (url e) s') = fetched e"
  let ?s = "console Iniciando s"
  have s: "db ?s = db s" "filter is_updated (log ?s) = filter is_updated (log s)"
    "filter is_failed (log ?s) = filter is_failed (log s)"
    by (simp_all add: console_def)
  note c = for_each_law_counts [OF a, of ?s]
  show "last (log (scheduleLawUpdates L net catalog s)) = Concluida"
    by (simp add: scheduleLawUpdates_def console_def)
  show "filter is_updated (log (scheduleLawUpdates L net catalog s)) =
       filter is_updated (log s) @
       map (\<lambda>e. Atualizada (type e)) (filter (\<lambda>e. truthy (fetched e)) catalog)"
    using c s by (simp add: scheduleLawUpdates_def console_def)
  show "filter is_failed (log (scheduleLawUpdates L net catalog s)) =
       filter is_failed (log s) @
       map (\<lambda>e. Falha (type e)) (filter (\<lambda>e. \<not> truthy (fetched e)) catalog)"
    using c s by (simp add: scheduleLawUpdates_def console_def)
  show "seq (db (scheduleLawUpdates L net catalog s)) =
       seq (db s) + length (filter (\<lambda>e. truthy (fetched e)) catalog)"
    using c s by (simp add: scheduleLawUpdates_def console_def)
  fix e
  assume "unique_law_type (db s) \<and> distinct (map type catalog)" "e \<in> set catalog"
    "truthy (fetched e)"
  then have "select_latest (db (for_each_law L net catalog ?s)) (type e) = fetched e"
    using a s(1) by (intro for_each_law_latest) simp_all
  then show "select_latest (db (scheduleLawUpdates L net catalog s)) (type e) = fetched e"
    by (simp add: scheduleLawUpdates_def console_def)
qed

theorem C7_cycle_resilience_witness:
  "last (log (scheduleLawUpdates example_libs example_net lawsToUpdate s0)) = Concluida \<and>
   filter is_failed (log (scheduleLawUpdates example_libs example_net lawsToUpdate s0)) =
     [Falha ''codigo-penal''] \<and>
   filter is_updated (log (scheduleLawUpdates example_libs example_net lawsToUpdate s0)) =
     [Atualizada ''codigo-civil'', Atualizada ''processo-civil'', Atualizada ''eleitoral'',
      Atualizada ''codigo-comercial'', Atualizada ''constituicao-federal'',
      Atualizada ''codigo-tributario'', Atualizada ''leis-trabalho'',
      Atualizada ''defesa-consumidor'', Atualizada ''advocacia'',
      Atualizada ''estatuto-deficiencia''] \<and>
   seq (db (scheduleLawUpdates example_libs example_net lawsToUpdate s0)) = 10 \<and>
   select_latest (db (scheduleLawUpdates example_libs example_net lawsToUpdate s0))
     ''estatuto-deficiencia'' = Some (parseHTML example_libs example_page) \<and>
   select_latest (db (scheduleLawUpdates example_libs example_net lawsToUpdate s0))
     ''codigo-penal'' = None"
proof -
  have h: "\<forall>e\<in>set lawsToUpdate. \<forall>s'.
             fst (fetchAndParseData example_libs example_net (url e) s') = example_fetched e"
    by (simp add: example_fetch)
  have u: "unique_law_type (db s0) \<and> distinct (map type lawsToUpdate)"
    by (simp add: unique_law_type_def s0_def empty_db_def lawsToUpdate_def)
  have f: "filter (\<lambda>e. truthy (example_fetched e)) lawsToUpdate =
             [lawsToUpdate ! 0, lawsToUpdate ! 1, lawsToUpdate ! 2, lawsToUpdate ! 3,
              lawsToUpdate ! 5, lawsToUpdate ! 6, lawsToUpdate ! 7, lawsToUpdate ! 8,
              lawsToUpdate ! 9, lawsToUpdate ! 10]"
    and g: "filter (\<lambda>e. \<not> truthy (example_fetched e)) lawsToUpdate = [lawsToUpdate ! 4]"
    by (simp_all add: example_truthy lawsToUpdate_def url_codigo_penal_def)
  have m: "lawsToUpdate ! 10 \<in> set lawsToUpdate" "truthy (example_fetched (lawsToUpdate ! 10))"
    "type (lawsToUpdate ! 10) = ''estatuto-deficiencia''"
    by (simp_all add: example_truthy lawsToUpdate_def url_codigo_penal_def)
  have m4: "example_fetched (lawsToUpdate ! 10) = Some (parseHTML example_libs example_page)"
    by (simp add: example_fetched_def lawsToUpdate_def url_codigo_penal_def)
  note C = C7_cycle_resilience [where L = example_libs and net = example_net
      and catalog = lawsToUpdate and s = s0 and fetched = example_fetched]
  from C h have 1: "last (log (scheduleLawUpdates example_libs example_net lawsToUpdate s0)) = Concluida"
    by blast
  from C h have "filter is_failed (log (scheduleLawUpdates example_libs example_net lawsToUpdate s0)) =
       filter is_failed (log s0) @
       map (\<lambda>e. Falha (type e)) (filter (\<lambda>e. \<not> truthy (example_fetched e)) lawsToUpdate)"
    by blast
  then have 2: "filter is_failed (log (scheduleLawUpdates example_libs example_net lawsToUpdate s0)) =
     [Falha ''codigo-penal'']"
    unfolding g by (simp add: s0_def lawsToUpdate_def)
  from C h have "filter is_updated (log (scheduleLawUpdates example_libs example_net lawsToUpdate s0)) =
       filter is_updated (log s0) @
       map (\<lambda>e. Atualizada (type e)) (filter (\<lambda>e. truthy (example_fetched e)) lawsToUpdate)"
    by blast
  then have 3: "filter is_updated (log (scheduleLawUpdates example_libs example_net lawsToUpdate s0)) =
     [Atualizada ''codigo-civil'', Atualizada ''processo-civil'', Atualizada ''eleitoral'',
      Atualizada ''codigo-comercial'', Atualizada ''constituicao-federal'',
      Atualizada ''codigo-tributario'', Atualizada ''leis-trabalho'',
      Atualizada ''defesa-consumidor'', Atualizada ''advocacia'',
      Atualizada ''estatuto-deficiencia'']"
    unfolding f by (simp add: s0_def lawsToUpdate_def)
  from C h have "seq (db (scheduleLawUpdates example_libs example_net lawsToUpdate s0)) =
       seq (db s0) + length (filter (\<lambda>e. truthy (example_fetched e)) lawsToUpdate)"
    by blast
  then have 4: "seq (db (scheduleLawUpdates example_libs example_net lawsToUpdate s0)) = 10"
    unfolding f by (simp add: s0_def empty_db_def)
  from C h u m(1,2) have "select_latest (db (scheduleLawUpdates example_libs example_net lawsToUpdate s0))
     (type (lawsToUpdate ! 10)) = example_fetched (lawsToUpdate ! 10)"
    by blast
  then have 5: "select_latest (db (scheduleLawUpdates example_libs example_net lawsToUpdate s0))
     ''estatuto-deficiencia'' = Some (parseHTML example_libs example_page)"
    by (simp only: m(3) m4)
  have "rows_of (db (for_each_law example_libs example_net lawsToUpdate (console Iniciando s0)))
          ''codigo-penal'' = rows_of (db (console Iniciando s0)) ''codigo-penal''"
    by (rule for_each_law_frame)
       (simp add: example_fetch example_truthy lawsToUpdate_def url_codigo_penal_def)
  then have 6: "select_latest (db (scheduleLawUpdates example_libs example_net lawsToUpdate s0))
     ''codigo-penal'' = None"
    by (simp add: select_latest_def rows_of_def scheduleLawUpdates_def console_def s0_def
        empty_db_def order_by_last_updated_desc_def)
  from 1 2 3 4 5 6 show ?thesis by blast
qed

section \<open>What a failed or empty fetch leaves behind\<close>


lemma set_upsert_rows:
  "r \<in> set (upsert_rows rs i T c now) \<Longrightarrow> r \<in> set rs \<or> content r = c"
  by (induction rs) (auto split: if_splits)

lemma rows_store_content:
  "r \<in> set (rows (db (store_content T result s))) \<Longrightarrow> r \<in> set (rows (db s)) \<or> content r \<noteq> []"
  "r \<in> set (rows (db (store_content_A T result s))) \<Longrightarrow> r \<in> set (rows (db s)) \<or> content r \<noteq> []"
  by (auto simp: store_content_def store_content_A_def console_def upsert_def
      split: option.splits if_splits dest: set_upsert_rows)

lemma rows_updateLaw:
  assumes "r \<in> set (rows (db (updateLaw L net T u s)))"
  shows "r \<in> set (rows (db s)) \<or> content r \<noteq> []"
proof -
  obtain x s1 where f: "fetchAndParseData L net u (console (Buscando T) s) = (x, s1)"
    by (cases "fetchAndParseData L net u (console (Buscando T) s)")
  then have "db s1 = db s"
    using fetchAndParseData_db [of L net u "console (Buscando T) s"] by (simp add: console_def)
  with assms f rows_store_content(1) [of r T x s1] show ?thesis
    by (simp add: updateLaw_def)
qed

lemma rows_updateLaw_A:
  assumes "r \<in> set (rows (db (updateLaw_A L net T u s)))"
  shows "r \<in> set (rows (db s)) \<or> content r \<noteq> []"
proof -
  obtain x s1 where f: "fetchAndParseData_A L net u s = (x, s1)"
    by (cases "fetchAndParseData_A L net u s")
  then have "db s1 = db s"
    using fetchAndParseData_A_db [of L net u s] by simp
  with assms f rows_store_content(2) [of r T x s1] show ?thesis
    by (simp add: updateLaw_A_def)
qed

lemma nonempty_updateLaw:
  "nonempty_contents (db s) \<Longrightarrow> nonempty_contents (db (updateLaw L net T u s))"
  "nonempty_contents (db s) \<Longrightarrow> nonempty_contents (db (updateLaw_A L net T u s))"
  unfolding nonempty_contents_def list_all_iff
  using rows_updateLaw rows_updateLaw_A by blast+

lemma nonempty_for_each_law:
  "nonempty_contents (db s) \<Longrightarrow> nonempty_contents (db (for_each_law L net laws s))"
proof (induction laws arbitrary: s)
  case Nil
  then show ?case by simp
next
  case (Cons e laws)
  have "nonempty_contents (db (delay 2000 (console Pausa (updateLaw L net (type e) (url e) s))))"
    using Cons.prems by (simp add: step_fields nonempty_updateLaw)
  then show ?case by (simp add: Cons.IH)
qed

lemma get_laws_nonempty:
  assumes "nonempty_contents d"
  shows "payload (get_laws d T) \<noteq> Send []"
proof (cases "\<exists>r\<in>set (rows d). law_type r = T")
  case True
  from select_latest_Some [OF this] obtain r where
    "r \<in> set (rows d)" "select_latest d T = Some (content r)" by blast
  with assms show ?thesis by (auto simp: get_laws_def nonempty_contents_def list_all_iff)
next
  case False
  then have "select_latest d T = None" by (simp add: select_latest_None)
  then show ?thesis by (simp add: get_laws_def)
qed

text \<open>
  Claim C9 (a failed fetch leaves the record). When \<open>fetchAndParseData\<close> returns \<open>null\<close>,
  \<open>updateLaw\<close> leaves the whole table as it was, in part_000 and in variant A; and when
  that holds of every catalog entry of a type, the rows of that type, content and
  \<^verbatim>\<open>last_updated\<close>, are after the cycle what they were before it, and the cycle runs
  to its last line.
\<close>

theorem C9_failed_fetch_leaves_record:
  "(fst (fetchAndParseData L net u (console (Buscando T) s)) = None \<longrightarrow>
      db (updateLaw L net T u s) = db s) \<and>
   (fst (fetchAndParseData_A L net u s) = None \<longrightarrow> db (updateLaw_A L net T u s) = db s) \<and>
   ((\<forall>e\<in>set catalog. type e = T \<longrightarrow> (\<forall>s'. fst (fetchAndParseData L net (url e) s') = None)) \<longrightarrow>
      rows_of (db (scheduleLawUpdates L net catalog s)) T = rows_of (db s) T \<and>
      last (log (scheduleLawUpdates L net catalog s)) = Concluida)"
proof (intro conjI impI)
  assume "fst (fetchAndParseData L net u (console (Buscando T) s)) = None"
  then show "db (updateLaw L net T u s) = db s" by (simp add: updateLaw_db_unchanged)
next
  assume "fst (fetchAndParseData_A L net u s) = None"
  then show "db (updateLaw_A L net T u s) = db s" by (simp add: updateLaw_A_db_unchanged)
next
  assume a: "\<forall>e\<in>set catalog. type e = T \<longrightarrow> (\<forall>s'. fst (fetchAndParseData L net (url e) s') = None)"
  have "rows_of (db (for_each_law L net catalog (console Iniciando s))) T =
        rows_of (db (console Iniciando s)) T"
    using a by (intro for_each_law_frame) (auto simp: truthy_def)
  then show "rows_of (db (scheduleLawUpdates L net catalog s)) T = rows_of (db s) T"
    by (simp add: scheduleLawUpdates_def console_def)
  show "last (log (scheduleLawUpdates L net catalog s)) = Concluida"
    by (simp add: scheduleLawUpdates_def console_def)
qed

theorem C9_failed_fetch_leaves_record_witness:
  "fst (fetchAndParseData example_libs example_net url_codigo_penal
          (console (Buscando ''codigo-penal'') s1)) = None \<and>
   db (updateLaw example_libs example_net ''codigo-penal'' url_codigo_penal s1) = db s1 \<and>
   fst (fetchAndParseData_A example_libs example_net url_codigo_penal s1) = None \<and>
   db (updateLaw_A example_libs example_net ''codigo-penal'' url_codigo_penal s1) = db s1 \<and>
   rows_of (db (scheduleLawUpdates example_libs example_net lawsToUpdate s1)) ''codigo-penal'' =
     [\<lparr>row_id = 1, law_type = ''codigo-penal'', content = ''texto de ontem'', last_updated = 7\<rparr>] \<and>
   last (log (scheduleLawUpdates example_libs example_net lawsToUpdate s1)) = Concluida"
proof -
  have h1: "fst (fetchAndParseData example_libs example_net url_codigo_penal
          (console (Buscando ''codigo-penal'') s1)) = None"
    using example_fetch [of "\<lparr>type = ''codigo-penal'', url = url_codigo_penal\<rparr>"]
    by (simp add: example_fetched_def)
  have h2: "fst (fetchAndParseData_A example_libs example_net url_codigo_penal s1) = None"
    by (simp add: fetchAndParseData_A_def request_def Let_def example_net_penal)
  have h3: "\<forall>e\<in>set lawsToUpdate. type e = ''codigo-penal'' \<longrightarrow>
        (\<forall>s'. fst (fetchAndParseData example_libs example_net (url e) s') = None)"
    by (simp add: example_fetch example_fetched_def lawsToUpdate_def url_codigo_penal_def)
  have r: "rows_of (db s1) ''codigo-penal'' =
     [\<lparr>row_id = 1, law_type = ''codigo-penal'', content = ''texto de ontem'', last_updated = 7\<rparr>]"
    by (simp add: s1_def rows_of_def upsert_def empty_db_def)
  from C9_failed_fetch_leaves_record [where L = example_libs and net = example_net
      and u = url_codigo_penal and T = "''codigo-penal''" and s = s1 and catalog = lawsToUpdate]
    h1 h2 h3 r
  show ?thesis by simp
qed

text \<open>
  Claim C10 (no empty content). Every row of the table after \<open>updateLaw\<close> is a row it had
  before or has a content that is not empty, in part_000 and in variant A; a fetch that
  returns the empty text changes nothing in the table; hence a table whose contents are
  all non-empty stays so through \<open>updateLaw\<close> and through a whole cycle, and on such a
  table the route never sends an empty body.
\<close>

theorem C10_nonempty_content:
  "(\<forall>r\<in>set (rows (db (updateLaw L net T u s))). r \<in> set (rows (db s)) \<or> content r \<noteq> []) \<and>
   (\<forall>r\<in>set (rows (db (updateLaw_A L net T u s))). r \<in> set (rows (db s)) \<or> content r \<noteq> []) \<and>
   (fst (fetchAndParseData L net u (console (Buscando T) s)) = Some [] \<longrightarrow>
      db (updateLaw L net T u s) = db s) \<and>
   (fst (fetchAndParseData_A L net u s) = Some [] \<longrightarrow> db (updateLaw_A L net T u s) = db s) \<and>
   (nonempty_contents (db s) \<longrightarrow>
      nonempty_contents (db (updateLaw L net T u s)) \<and>
      nonempty_contents (db (updateLaw_A L net T u s)) \<and>
      nonempty_contents (db (scheduleLawUpdates L net catalog s))) \<and>
   (nonempty_contents d \<longrightarrow> payload (get_laws d T') \<noteq> Send [])"
proof (intro conjI impI ballI)
  fix r
  assume "r \<in> set (rows (db (updateLaw L net T u s)))"
  then show "r \<in> set (rows (db s)) \<or> content r \<noteq> []" by (rule rows_updateLaw)
next
  fix r
  assume "r \<in> set (rows (db (updateLaw_A L net T u s)))"
  then show "r \<in> set (rows (db s)) \<or> content r \<noteq> []" by (rule rows_updateLaw_A)
next
  assume "fst (fetchAndParseData L net u (console (Buscando T) s)) = Some []"
  then show "db (updateLaw L net T u s) = db s" by (simp add: updateLaw_db_unchanged)
next
  assume "fst (fetchAndParseData_A L net u s) = Some []"
  then show "db (updateLaw_A L net T u s) = db s" by (simp add: updateLaw_A_db_unchanged)
next
  assume n: "nonempty_contents (db s)"
  then show "nonempty_contents (db (updateLaw L net T u s))"
    "nonempty_contents (db (updateLaw_A L net T u s))"
    by (rule nonempty_updateLaw)+
  from n have "nonempty_contents (db (for_each_law L net catalog (console Iniciando s)))"
    by (intro nonempty_for_each_law) (simp add: console_def)
  then show "nonempty_contents (db (scheduleLawUpdates L net catalog s))"
    by (simp add: scheduleLawUpdates_def console_def)
next
  assume "nonempty_contents d"
  then show "payload (get_laws d T') \<noteq> Send []" by (rule get_laws_nonempty)
qed

theorem C10_nonempty_content_witness:
  "fst (fetchAndParseData blank_libs example_net url_advocacia
          (console (Buscando ''advocacia'') s1)) = Some [] \<and>
   nonempty_contents (db s1) \<and>
   db (updateLaw blank_libs example_net ''advocacia'' url_advocacia s1) = db s1 \<and>
   fst (fetchAndParseData_A blank_libs example_net url_advocacia s1) = Some [] \<and>
   db (updateLaw_A blank_libs example_net ''advocacia'' url_advocacia s1) = db s1 \<and>
   nonempty_contents (db (scheduleLawUpdates example_libs example_net lawsToUpdate s1)) \<and>
   get_laws (db (updateLaw blank_libs example_net ''advocacia'' url_advocacia s1))
     ''advocacia'' = \<lparr>status = 200, payload = Send ''estatuto de ontem''\<rparr>"
proof -
  have e: "parseHTML blank_libs html = []" "parseHTML_A blank_libs html = []" for html
    by (simp_all add: parseHTML_def parseHTML_A_def blank_libs_def example_libs_def)
  have o: "outcome (example_net url_advocacia t) = Resolved example_page" for t
    by (simp add: example_net_def url_advocacia_def url_codigo_penal_def)
  from fetchAndParseData_resolved [where net = example_net and u = url_advocacia
      and L = blank_libs and data = example_page
      and s = "console (Buscando ''advocacia'') s1", OF o]
  have h1: "fst (fetchAndParseData blank_libs example_net url_advocacia
          (console (Buscando ''advocacia'') s1)) = Some []"
    by (simp add: e)
  have h2: "fst (fetchAndParseData_A blank_libs example_net url_advocacia s1) = Some []"
    by (simp add: fetchAndParseData_A_def request_def Let_def o e)
  have h3: "nonempty_contents (db s1)"
    by (simp add: nonempty_contents_def s1_def upsert_def empty_db_def)
  note C = C10_nonempty_content [where L = blank_libs and net = example_net
      and u = url_advocacia and T = "''advocacia''" and s = s1]
  from C h1 have d: "db (updateLaw blank_libs example_net ''advocacia'' url_advocacia s1) = db s1"
    by blast
  from C h2 have dA: "db (updateLaw_A blank_libs example_net ''advocacia'' url_advocacia s1) = db s1"
    by blast
  from C10_nonempty_content [where L = example_libs and net = example_net
      and s = s1 and catalog = lawsToUpdate] h3
  have n: "nonempty_contents (db (scheduleLawUpdates example_libs example_net lawsToUpdate s1))"
    by blast
  have g: "get_laws (db s1) ''advocacia'' = \<lparr>status = 200, payload = Send ''estatuto de ontem''\<rparr>"
    by (simp add: get_laws_def select_latest_def order_by_last_updated_desc_def s1_def upsert_def
        empty_db_def)
  from h1 h2 h3 d dA n g show ?thesis by simp
qed

section \<open>The cleaned tree\<close>













section \<open>Where entities are decoded\<close>


lemma fetchAndParseData_Some:
  "fst (fetchAndParseData L net u s) = Some c \<Longrightarrow>
   \<exists>data. c = he_decode L (cheerio_html L (clean (cheerio_load L (iconv_decode_1252 L data))))"
  by (auto simp: fetchAndParseData_def parseHTML_def split: prod.splits outcome.splits)

lemma fetchAndParseData_A_Some:
  "fst (fetchAndParseData_A L net u s) = Some c \<Longrightarrow>
   \<exists>data. c = he_decode L (cheerio_html L (clean_A (cheerio_load L (axios_text L data))))"
  by (auto simp: fetchAndParseData_A_def parseHTML_A_def split: prod.splits outcome.splits)

lemma fetchAndParseData_B_Some:
  "fst (fetchAndParseData_B L net u s) = Some c \<Longrightarrow>
   \<exists>data. c = cheerio_html L (clean_B (cheerio_load L (toString_latin1 L data)))"
  by (auto simp: fetchAndParseData_B_def parseHTML_B_def split: prod.splits outcome.splits)

lemma updateLaw_stores:
  assumes "unique_law_type (db s)"
    and "fst (fetchAndParseData L net u (console (Buscando T) s)) = Some c" and "c \<noteq> []"
  shows "select_latest (db (updateLaw L net T u s)) T = Some c"
  using assms by (simp add: updateLaw_effect(1) truthy_def select_latest_upsert)

lemma updateLaw_A_stores:
  assumes "unique_law_type (db s)"
    and "fst (fetchAndParseData_A L net u s) = Some c" and "c \<noteq> []"
  shows "select_latest (db (updateLaw_A L net T u s)) T = Some c"
proof -
  obtain s1 where f: "fetchAndParseData_A L net u s = (Some c, s1)"
    using assms(2) by (cases "fetchAndParseData_A L net u s") simp
  then have "db s1 = db s" using fetchAndParseData_A_db [of L net u s] by simp
  then show ?thesis using f assms(1,3)
    by (simp add: updateLaw_A_def store_content_A_def console_def select_latest_upsert)
qed

lemma updateLaw_B_stores:
  assumes "\<forall>r\<in>set (rows_of (db s) T).
             last_updated r < CURRENT_TIMESTAMP (snd (fetchAndParseData_B L net u s))"
    and "fst (fetchAndParseData_B L net u s) = Some c" and "c \<noteq> []"
  shows "select_latest (db (updateLaw_B L net T u s)) T = Some c"
proof -
  obtain s1 where f: "fetchAndParseData_B L net u s = (Some c, s1)"
    using assms(2) by (cases "fetchAndParseData_B L net u s") simp
  then have d: "db s1 = db s" using fetchAndParseData_B_db [of L net u s] by simp
  have "\<forall>r\<in>set (rows (db s1)). law_type r = T \<longrightarrow> last_updated r < CURRENT_TIMESTAMP s1"
    using assms(1) f d by (simp add: rows_of_def)
  then have "select_latest (insert_B (db s1) T c (CURRENT_TIMESTAMP s1)) T = Some c"
    by (rule select_latest_insert_B)
  then show ?thesis using f assms(3)
    by (simp add: updateLaw_B_def store_content_B_def console_def)
qed

text \<open>
  Claim C5 (entity decoding). In part_000 and in variant A whatever \<open>fetchAndParseData\<close>
  returns is a result of \<^verbatim>\<open>he.decode\<close>, and \<open>updateLaw\<close> stores that text as it is: the
  query returns it and the route sends it unchanged. In variant B what is fetched and
  stored is the serialised markup, not decoded; \<^verbatim>\<open>he.decode\<close> is applied when the route
  reads it.
\<close>

theorem C5_entity_decoding:
  "(fst (fetchAndParseData L net u (console (Buscando T) s)) = Some c \<longrightarrow>
      (\<exists>data. c = he_decode L (cheerio_html L (clean (cheerio_load L (iconv_decode_1252 L data))))) \<and>
      (unique_law_type (db s) \<and> c \<noteq> [] \<longrightarrow>
         select_latest (db (updateLaw L net T u s)) T = Some c \<and>
         get_laws (db (updateLaw L net T u s)) T = \<lparr>status = 200, payload = Send c\<rparr>)) \<and>
   (fst (fetchAndParseData_A L net u s) = Some c \<longrightarrow>
      (\<exists>data. c = he_decode L (cheerio_html L (clean_A (cheerio_load L (axios_text L data))))) \<and>
      (unique_law_type (db s) \<and> c \<noteq> [] \<longrightarrow>
         select_latest (db (updateLaw_A L net T u s)) T = Some c \<and>
         get_laws (db (updateLaw_A L net T u s)) T = \<lparr>status = 200, payload = Send c\<rparr>)) \<and>
   (fst (fetchAndParseData_B L net u s) = Some c \<longrightarrow>
      (\<exists>data. c = cheerio_html L (clean_B (cheerio_load L (toString_latin1 L data)))) \<and>
      ((\<forall>r\<in>set (rows_of (db s) T).
           last_updated r < CURRENT_TIMESTAMP (snd (fetchAndParseData_B L net u s))) \<and> c \<noteq> [] \<longrightarrow>
         select_latest (db (updateLaw_B L net T u s)) T = Some c \<and>
         get_laws_B L (db (updateLaw_B L net T u s)) T =
           \<lparr>status = 200, payload = Send (he_decode L c)\<rparr>))"
proof (intro conjI impI)
  assume f: "fst (fetchAndParseData L net u (console (Buscando T) s)) = Some c"
  then show "\<exists>data. c = he_decode L (cheerio_html L (clean (cheerio_load L (iconv_decode_1252 L data))))"
    by (rule fetchAndParseData_Some)
  assume "unique_law_type (db s) \<and> c \<noteq> []"
  with f show l: "select_latest (db (updateLaw L net T u s)) T = Some c"
    by (simp add: updateLaw_stores)
  then show "get_laws (db (updateLaw L net T u s)) T = \<lparr>status = 200, payload = Send c\<rparr>"
    by (simp add: get_laws_def)
next
  assume f: "fst (fetchAndParseData_A L net u s) = Some c"
  then show "\<exists>data. c = he_decode L (cheerio_html L (clean_A (cheerio_load L (axios_text L data))))"
    by (rule fetchAndParseData_A_Some)
  assume "unique_law_type (db s) \<and> c \<noteq> []"
  with f show l: "select_latest (db (updateLaw_A L net T u s)) T = Some c"
    by (simp add: updateLaw_A_stores)
  then show "get_laws (db (updateLaw_A L net T u s)) T = \<lparr>status = 200, payload = Send c\<rparr>"
    by (simp add: get_laws_def)
next
  assume f: "fst (fetchAndParseData_B L net u s) = Some c"
  then show "\<exists>data. c = cheerio_html L (clean_B (cheerio_load L (toString_latin1 L data)))"
    by (rule fetchAndParseData_B_Some)
  assume "(\<forall>r\<in>set (rows_of (db s) T).
           last_updated r < CURRENT_TIMESTAMP (snd (fetchAndParseData_B L net u s))) \<and> c \<noteq> []"
  with f show l: "select_latest (db (updateLaw_B L net T u s)) T = Some c"
    by (simp add: updateLaw_B_stores)
  then show "get_laws_B L (db (updateLaw_B L net T u s)) T =
           \<lparr>status = 200, payload = Send (he_decode L c)\<rparr>"
    by (simp add: get_laws_B_def)
qed

lemma example_parseHTML_B:
  "parseHTML_B example_libs example_page =
     ''<html><head></head><body><script>f()</script><a>Fa'' @ [CHR 0xE7] @ ''a &amp; aconte''
       @ [CHR 0xE7] @ ''a</a></body></html>''"
  by (simp add: parseHTML_B_def example_libs_def example_load_def example_tree_def clean_B_def
      drop_attr_def escape_text_def)

lemma example_advocacia:
  "outcome (example_net url_advocacia t) = Resolved example_page"
  "latency (example_net url_advocacia t) = 300"
  by (simp_all add: example_net_def url_advocacia_def url_codigo_penal_def)

theorem C5_entity_decoding_witness:
  "fst (fetchAndParseData example_libs example_net url_advocacia
          (console (Buscando ''advocacia'') s0)) =
     Some (''<html><head></head><body><a>Fa'' @ [CHR 0xE7] @ ''a & aconte'' @ [CHR 0xE7]
             @ ''a</a></body></html>'') \<and>
   unique_law_type (db s0) \<and>
   select_latest (db (updateLaw example_libs example_net ''advocacia'' url_advocacia s0))
     ''advocacia'' =
     Some (''<html><head></head><body><a>Fa'' @ [CHR 0xE7] @ ''a & aconte'' @ [CHR 0xE7]
             @ ''a</a></body></html>'')"
proof -
  have i: "iconv_decode_1252 example_libs example_page = example_page"
    by (simp add: example_libs_def)
  from fetchAndParseData_resolved [where net = example_net and u = url_advocacia
      and L = example_libs and data = example_page
      and s = "console (Buscando ''advocacia'') s0", OF example_advocacia(1)]
  have f: "fst (fetchAndParseData example_libs example_net url_advocacia
          (console (Buscando ''advocacia'') s0)) =
     Some (''<html><head></head><body><a>Fa'' @ [CHR 0xE7] @ ''a & aconte'' @ [CHR 0xE7]
             @ ''a</a></body></html>'')"
    by (simp add: i example_parseHTML)
  have u: "unique_law_type (db s0)"
    by (simp add: unique_law_type_def s0_def empty_db_def)
  from C5_entity_decoding [where L = example_libs and net = example_net and u = url_advocacia
      and T = "''advocacia''" and s = s0
      and c = "''<html><head></head><body><a>Fa'' @ [CHR 0xE7] @ ''a & aconte'' @ [CHR 0xE7]
             @ ''a</a></body></html>''"] f u
  show ?thesis by simp
qed

text \<open>
  As stated, about the content at write time, the claim fails on variant B: the row stored
  for the example page holds \<^verbatim>\<open>&amp;\<close>, and only the answer of the route holds \<^verbatim>\<open>&\<close>.
\<close>

theorem C5_entity_decoding_counterexample:
  "select_latest (db (updateLaw_B example_libs example_net ''advocacia'' url_advocacia s0))
     ''advocacia'' =
     Some (''<html><head></head><body><script>f()</script><a>Fa'' @ [CHR 0xE7]
             @ ''a &amp; aconte'' @ [CHR 0xE7] @ ''a</a></body></html>'') \<and>
   payload (get_laws_B example_libs
              (db (updateLaw_B example_libs example_net ''advocacia'' url_advocacia s0))
              ''advocacia'') =
     Send (''<html><head></head><body><script>f()</script><a>Fa'' @ [CHR 0xE7]
             @ ''a & aconte'' @ [CHR 0xE7] @ ''a</a></body></html>'')"
proof -
  have t: "toString_latin1 example_libs example_page = example_page"
    by (simp add: example_libs_def)
  have d: "he_decode example_libs
             (''<html><head></head><body><script>f()</script><a>Fa'' @ [CHR 0xE7]
               @ ''a &amp; aconte'' @ [CHR 0xE7] @ ''a</a></body></html>'') =
           ''<html><head></head><body><script>f()</script><a>Fa'' @ [CHR 0xE7]
             @ ''a & aconte'' @ [CHR 0xE7] @ ''a</a></body></html>''"
    by (simp add: example_libs_def)
  have "db (updateLaw_B example_libs example_net ''advocacia'' url_advocacia s0) =
          insert_B empty_db ''advocacia'' (parseHTML_B example_libs example_page) 0"
    by (simp add: updateLaw_B_def fetchAndParseData_B_def request_def Let_def example_advocacia
        t example_parseHTML_B store_content_B_def console_def delay_def CURRENT_TIMESTAMP_def
        s0_def)
  then show ?thesis
    using d by (simp add: example_parseHTML_B insert_B_def empty_db_def select_latest_def
        order_by_last_updated_desc_def get_laws_B_def)
qed

section \<open>Calls that overlap\<close>


lemma sum_list_map_update:
  "i < length xs \<Longrightarrow>
   sum_list (map f (xs[i := y])) + f (xs ! i) = sum_list (map f xs) + (f y :: nat)"
proof (induction xs arbitrary: i)
  case Nil
  then show ?case by simp
next
  case (Cons x xs)
  then show ?case by (cases i) auto
qed

lemma sum_list_map_remove:
  "i < length xs \<Longrightarrow>
   sum_list (map f (take i xs @ drop (Suc i) xs)) + f (xs ! i) = (sum_list (map f xs) :: nat)"
proof (induction xs arbitrary: i)
  case Nil
  then show ?case by simp
next
  case (Cons x xs)
  show ?case
  proof (cases i)
    case 0
    then show ?thesis by simp
  next
    case (Suc j)
    with Cons.prems have "j < length xs" by simp
    from Cons.IH [OF this] Suc show ?thesis by simp
  qed
qed

lemma store_content_seq:
  "truthy result \<Longrightarrow> seq (db (store_content T result s)) = Suc (seq (db s))"
  by (auto simp: store_content_def truthy_def console_def upsert_def split: option.splits)

lemma trigger_effect:
  "seq (db (state (trigger catalog c))) = seq (db (state c))"
  "pending (trigger catalog c) = pending c + length catalog"
  "db (state (trigger catalog c)) = db (state c)"
  "catalog \<noteq> [] \<Longrightarrow> tasks (trigger catalog c) = tasks c @ [\<lparr>todo = catalog, phase = AwaitFetch\<rparr>]"
  by (auto simp: trigger_def pending_def remaining_def console_def split: list.splits)

lemma fetch_settled_effect:
  assumes "truthy result"
  shows "seq (db (state (fetch_settled i result c))) + pending (fetch_settled i result c) =
         seq (db (state c)) + pending c"
proof (cases "i < length (tasks c) \<and> phase (tasks c ! i) = AwaitFetch")
  case False
  then show ?thesis by (auto simp: fetch_settled_def)
next
  case True
  show ?thesis
  proof (cases "todo (tasks c ! i)")
    case Nil
    with True show ?thesis by (simp add: fetch_settled_def)
  next
    case (Cons law laws)
    have "sum_list (map remaining ((tasks c)[i := \<lparr>todo = law # laws, phase = AwaitDelay\<rparr>]))
            + remaining (tasks c ! i)
          = sum_list (map remaining (tasks c)) + remaining \<lparr>todo = law # laws, phase = AwaitDelay\<rparr>"
      using True by (intro sum_list_map_update) simp
    moreover have "remaining (tasks c ! i) = Suc (length laws)"
      using True Cons by (simp add: remaining_def)
    moreover have "remaining \<lparr>todo = law # laws, phase = AwaitDelay\<rparr> = length laws"
      by (simp add: remaining_def)
    ultimately show ?thesis using True Cons assms
      by (simp add: fetch_settled_def pending_def store_content_seq console_def)
  qed
qed

lemma delay_elapsed_effect:
  "seq (db (state (delay_elapsed i c))) = seq (db (state c))"
  "pending (delay_elapsed i c) = pending c"
proof -
  show "seq (db (state (delay_elapsed i c))) = seq (db (state c))"
    by (auto simp: delay_elapsed_def console_def split: list.splits)
  show "pending (delay_elapsed i c) = pending c"
  proof (cases "i < length (tasks c) \<and> phase (tasks c ! i) = AwaitDelay")
    case False
    then show ?thesis by (auto simp: delay_elapsed_def)
  next
    case True
    show ?thesis
    proof (cases "tl (todo (tasks c ! i))")
      case Nil
      have "sum_list (map remaining (take i (tasks c) @ drop (Suc i) (tasks c)))
              + remaining (tasks c ! i) = sum_list (map remaining (tasks c))"
        using True by (intro sum_list_map_remove) simp
      moreover have "remaining (tasks c ! i) = 0"
        using True Nil by (cases "todo (tasks c ! i)") (simp_all add: remaining_def)
      ultimately show ?thesis using True Nil by (simp add: delay_elapsed_def pending_def)
    next
      case (Cons law laws)
      have "sum_list (map remaining ((tasks c)[i := \<lparr>todo = law # laws, phase = AwaitFetch\<rparr>]))
              + remaining (tasks c ! i)
            = sum_list (map remaining (tasks c)) + remaining \<lparr>todo = law # laws, phase = AwaitFetch\<rparr>"
        using True by (intro sum_list_map_update) simp
      moreover have "remaining (tasks c ! i) = Suc (length laws)"
        using True Cons by (cases "todo (tasks c ! i)") (simp_all add: remaining_def)
      moreover have "remaining \<lparr>todo = law # laws, phase = AwaitFetch\<rparr> = Suc (length laws)"
        by (simp add: remaining_def)
      ultimately show ?thesis using True Cons by (simp add: delay_elapsed_def pending_def)
    qed
  qed
qed

lemma fire_effect:
  assumes "settles_truthy e"
  shows "seq (db (state (fire catalog c e))) + pending (fire catalog c e) =
         seq (db (state c)) + pending c + (if e = Trigger then length catalog else 0)"
proof (cases e)
  case Trigger
  then show ?thesis by (simp add: trigger_effect)
next
  case (FetchSettled i result)
  with assms show ?thesis by (simp add: fetch_settled_effect)
next
  case (DelayElapsed i)
  then show ?thesis by (simp add: delay_elapsed_effect)
next
  case (Elapse ms)
  then show ?thesis by (simp add: delay_def pending_def)
qed

lemma run_effect:
  "list_all settles_truthy es \<Longrightarrow>
   seq (db (state (run catalog c es))) + pending (run catalog c es) =
   seq (db (state c)) + pending c + triggers es * length catalog"
proof (induction es arbitrary: c)
  case Nil
  show ?case by (simp add: run_def triggers_def)
next
  case (Cons e es)
  then have "settles_truthy e" "list_all settles_truthy es" by simp_all
  from fire_effect [OF this(1), of catalog c] Cons.IH [OF this(2), of "fire catalog c e"]
  show ?case by (simp add: run_def triggers_def)
qed

text \<open>
  Claim C8 (overlapping cycles). No variant has a guard: in part_000 a call of
  \<^verbatim>\<open>scheduleLawUpdates\<close> always starts a new task beside those in progress and writes
  nothing itself, and in variant B it always adds the whole catalog to the fetches in
  progress. Over any run in which every fetch returns a text, the writes made plus the
  entries still to fetch grow by the length of the catalog with every call: when all
  tasks have ended, the writes are as many cycles' worth as there were calls.
\<close>

theorem C8_no_reentrancy_guard:
  "(catalog \<noteq> [] \<longrightarrow>
      tasks (fire catalog c Trigger) = tasks c @ [\<lparr>todo = catalog, phase = AwaitFetch\<rparr>] \<and>
      db (state (fire catalog c Trigger)) = db (state c)) \<and>
   (list_all settles_truthy es \<longrightarrow>
      seq (db (state (run catalog c es))) + pending (run catalog c es) =
      seq (db (state c)) + pending c + triggers es * length catalog) \<and>
   pending_B (trigger_B catalog b) = pending_B b @ catalog \<and>
   state_B (trigger_B catalog b) = state_B b"
proof (intro conjI impI)
  assume "catalog \<noteq> []"
  then show "tasks (fire catalog c Trigger) = tasks c @ [\<lparr>todo = catalog, phase = AwaitFetch\<rparr>]"
    by (simp add: trigger_effect)
  show "db (state (fire catalog c Trigger)) = db (state c)"
    by (simp add: trigger_effect)
next
  assume "list_all settles_truthy es"
  then show "seq (db (state (run catalog c es))) + pending (run catalog c es) =
      seq (db (state c)) + pending c + triggers es * length catalog"
    by (rule run_effect)
next
  show "pending_B (trigger_B catalog b) = pending_B b @ catalog"
    "state_B (trigger_B catalog b) = state_B b"
    by (simp_all add: trigger_B_def)
qed

theorem C8_no_reentrancy_guard_witness:
  "lawsToUpdate \<noteq> [] \<and>
   tasks (fire lawsToUpdate (fire lawsToUpdate idle Trigger) Trigger) =
     [\<lparr>todo = lawsToUpdate, phase = AwaitFetch\<rparr>, \<lparr>todo = lawsToUpdate, phase = AwaitFetch\<rparr>] \<and>
   list_all settles_truthy overlapping_run \<and>
   seq (db (state (run lawsToUpdate idle overlapping_run))) +
     pending (run lawsToUpdate idle overlapping_run) = 2 * 11"
proof -
  have n: "lawsToUpdate \<noteq> []" by (simp add: lawsToUpdate_def)
  have t: "tasks (fire lawsToUpdate idle Trigger) = [\<lparr>todo = lawsToUpdate, phase = AwaitFetch\<rparr>]"
    using n by (simp add: trigger_effect idle_def)
  have l: "list_all settles_truthy overlapping_run" by code_simp
  have k: "triggers overlapping_run = 2" by code_simp
  have m: "length lawsToUpdate = 11" by (simp add: lawsToUpdate_def)
  have i: "seq (db (state idle)) = 0" "pending idle = 0"
    by (simp_all add: idle_def s0_def empty_db_def pending_def)
  from C8_no_reentrancy_guard [where catalog = lawsToUpdate
      and c = "fire lawsToUpdate idle Trigger"] n t
  have 1: "tasks (fire lawsToUpdate (fire lawsToUpdate idle Trigger) Trigger) =
     [\<lparr>todo = lawsToUpdate, phase = AwaitFetch\<rparr>, \<lparr>todo = lawsToUpdate, phase = AwaitFetch\<rparr>]"
    by simp
  from C8_no_reentrancy_guard [where catalog = lawsToUpdate and c = idle
      and es = overlapping_run] l k m i
  have 2: "seq (db (state (run lawsToUpdate idle overlapping_run))) +
     pending (run lawsToUpdate idle overlapping_run) = 2 * 11"
    by simp
  from n 1 l 2 show ?thesis by blast
qed

text \<open>
  As stated, the claim fails: a second call while the first is in progress leaves two
  tasks, and when both have ended the table has seen 22 writes, twice the 11 of one cycle.
\<close>

theorem C8_no_reentrancy_guard_counterexample:
  "length (tasks (run lawsToUpdate idle [Trigger])) = 1 \<and>
   length (tasks (run lawsToUpdate idle [Trigger, Trigger])) = 2 \<and>
   tasks (run lawsToUpdate idle overlapping_run) = [] \<and>
   seq (db (state (run lawsToUpdate idle overlapping_run))) = 22 \<and>
   length lawsToUpdate = 11"
  by code_simp

end
